theory Spec2Isabelle
  imports
    Complex_Main
    "HOL-Library.Char_ord"
    "HOL-Library.List_Lexorder"
    "HOL-Library.Product_Lexorder"
    "HOL-Library.AList"
begin

section \<open>The optimisation model that the scheduler builds\<close>

text \<open>
  \<^verbatim>\<open>scheduler.py\<close> drives a MILP solver: \<^verbatim>\<open>model.addVar\<close> creates a new variable object
  on every call (also when the name was used before), \<^verbatim>\<open>model.addConstr\<close> appends a linear
  constraint, \<^verbatim>\<open>model.setObjective\<close> stores a linear expression. A variable is identified
  here by its creation index; the model records the names in creation order. Every
  variable of the program is created with \<^verbatim>\<open>vtype=GRB.BINARY\<close>.
\<close>

type_synonym var = nat

text \<open>A linear expression: the terms (coefficient, variable) in the order they were added,
  and a constant.\<close>

type_synonym linexpr = "(int \<times> var) list \<times> rat"

datatype sense = LE | EQ

record constr =
  c_lhs :: linexpr
  c_sense :: sense
  c_rhs :: linexpr
  c_name :: string

record model =
  var_names :: "string list"
  constrs :: "constr list"
  objective :: linexpr

definition empty_model :: model where
  "empty_model = \<lparr>var_names = [], constrs = [], objective = ([], 0)\<rparr>"

definition addVar :: "model \<Rightarrow> string \<Rightarrow> var \<times> model" where
  "addVar m name = (length (var_names m), m\<lparr>var_names := var_names m @ [name]\<rparr>)"

definition addConstr :: "model \<Rightarrow> constr \<Rightarrow> model" where
  "addConstr m c = m\<lparr>constrs := constrs m @ [c]\<rparr>"

definition addConstrs :: "model \<Rightarrow> constr list \<Rightarrow> model" where
  "addConstrs m cs = m\<lparr>constrs := constrs m @ cs\<rparr>"

text \<open>Python's \<^verbatim>\<open>sum(vs)\<close> over a list of variables: coefficient 1 each, constant 0.\<close>

definition sum_vars :: "var list \<Rightarrow> linexpr" where
  "sum_vars vs = (map (\<lambda>v. (1, v)) vs, 0)"

definition const_expr :: "rat \<Rightarrow> linexpr" where
  "const_expr k = ([], k)"

definition var_expr :: "var \<Rightarrow> linexpr" where
  "var_expr v = ([(1, v)], 0)"

subsection \<open>What a solver's answer has to satisfy\<close>

definition eval_lin :: "(var \<Rightarrow> int) \<Rightarrow> linexpr \<Rightarrow> rat" where
  "eval_lin sol e = sum_list (map (\<lambda>(c, v). of_int (c * sol v)) (fst e)) + snd e"

definition sat :: "(var \<Rightarrow> int) \<Rightarrow> constr \<Rightarrow> bool" where
  "sat sol c =
     (case c_sense c of
        LE \<Rightarrow> eval_lin sol (c_lhs c) \<le> eval_lin sol (c_rhs c)
      | EQ \<Rightarrow> eval_lin sol (c_lhs c) = eval_lin sol (c_rhs c))"

definition binary :: "(var \<Rightarrow> int) \<Rightarrow> var \<Rightarrow> bool" where
  "binary sol v = (sol v = 0 \<or> sol v = 1)"

definition accepted :: "model \<Rightarrow> (var \<Rightarrow> int) \<Rightarrow> bool" where
  "accepted m sol =
     (list_all (binary sol) [0..<length (var_names m)] \<and> list_all (sat sol) (constrs m))"

subsection \<open>Strings\<close>

definition digit_char :: "nat \<Rightarrow> char" where
  "digit_char d = char_of (48 + d)"

fun str_nat :: "nat \<Rightarrow> string" where
  "str_nat n = (if n < 10 then [digit_char n] else str_nat (n div 10) @ [digit_char (n mod 10)])"

declare str_nat.simps [simp del]

text \<open>Python's \<^verbatim>\<open>str\<close> of an integer, as an f-string formats it.\<close>

definition str_int :: "int \<Rightarrow> string" where
  "str_int i = (if i < 0 then CHR ''-'' # str_nat (nat (- i)) else str_nat (nat i))"

text \<open>A character stands for a Unicode code point below 256. Among these, Python's
  \<^verbatim>\<open>str.isspace\<close> holds for 9 to 13, 28 to 32, 133 (U+0085) and 160 (U+00A0).\<close>

definition is_space :: "char \<Rightarrow> bool" where
  "is_space c = (of_char c \<in> set [9, 10, 11, 12, 13, 28, 29, 30, 31, 32, 133, 160 :: nat])"

text \<open>\<^verbatim>\<open>s.strip()\<close>.\<close>

definition strip :: "string \<Rightarrow> string" where
  "strip s = rev (dropWhile is_space (rev (dropWhile is_space s)))"

subsection \<open>The aggregated assignments table\<close>

text \<open>
  One row of the data frame that \<^verbatim>\<open>load_and_process_data\<close> hands to \<^verbatim>\<open>build_model\<close>:
  the group keys \<^verbatim>\<open>Course\<close>, \<^verbatim>\<open>Instructor\<close>, \<^verbatim>\<open>Course_Number\<close>, \<^verbatim>\<open>Email\<close> and the summed
  \<^verbatim>\<open># Sections\<close>.
\<close>

record row =
  Course :: string
  Instructor :: string
  Course_Number :: string
  Email :: string
  Sections :: int

text \<open>\<^verbatim>\<open>range(1, n + 1)\<close>.\<close>

definition range1 :: "int \<Rightarrow> int list" where
  "range1 n = [1..n]"

text \<open>\<^verbatim>\<open>Series.unique()\<close>: the values in order of first appearance.\<close>

fun unique :: "'a list \<Rightarrow> 'a list" where
  "unique [] = []"
| "unique (x # xs) = x # unique (filter (\<lambda>y. y \<noteq> x) xs)"

text \<open>The days and slots that \<^verbatim>\<open>main\<close> passes to \<^verbatim>\<open>build_model\<close>.\<close>

definition main_time_slots :: "string list" where
  "main_time_slots =
     [''8:30-10:00 AM'', ''10:00-11:30 AM'', ''11:30-1:00 PM'', ''1:00-2:30 PM'',
      ''2:30-4:00 PM'', ''4:00-5:30 PM'', ''6:00-7:30 PM'', ''7:30-9:00 PM'']"

definition main_days :: "string list" where
  "main_days = [''Monday'', ''Tuesday'', ''Wednesday'', ''Thursday'', ''Friday'']"

subsection \<open>\<^verbatim>\<open>build_model\<close>: the assignment variables\<close>

definition x_name :: "string \<Rightarrow> string \<Rightarrow> int \<Rightarrow> int \<Rightarrow> string \<Rightarrow> string \<Rightarrow> string" where
  "x_name course instructor section_id part day slot =
     ''X_'' @ course @ ''_'' @ instructor @ ''_'' @ str_int section_id @ ''_'' @ str_int part
       @ ''_'' @ day @ ''_'' @ slot"

text \<open>The \<^verbatim>\<open>variables\<close> dictionary: keys in insertion order; storing under a key that is
  already there replaces its value in place, as a Python dict does.\<close>

type_synonym variables = "(string \<times> var) list"

definition in_variables :: "string \<Rightarrow> variables \<Rightarrow> bool" where
  "in_variables name vars = (map_of vars name \<noteq> None)"

definition lookup :: "variables \<Rightarrow> string \<Rightarrow> var" where
  "lookup vars name = the (map_of vars name)"

definition day_slot_pairs :: "string list \<Rightarrow> string list \<Rightarrow> (string \<times> string) list" where
  "day_slot_pairs days time_slots = concat (map (\<lambda>day. map (\<lambda>slot. (day, slot)) time_slots) days)"

definition parts :: "int list" where
  "parts = [1, 2]"

definition row_var_names :: "string list \<Rightarrow> string list \<Rightarrow> row \<Rightarrow> string list" where
  "row_var_names time_slots days r =
     (if Sections r = 0 then []
      else concat (map (\<lambda>section_id.
             concat (map (\<lambda>part.
               map (\<lambda>(day, slot). x_name (Course r) (Instructor r) section_id part day slot)
                 (day_slot_pairs days time_slots)) parts)) (range1 (Sections r))))"

definition new_variable :: "string \<Rightarrow> model \<times> variables \<Rightarrow> model \<times> variables" where
  "new_variable name st =
     (case addVar (fst st) name of (v, m') \<Rightarrow> (m', AList.update name v (snd st)))"

definition create_variables :: "model \<Rightarrow> row list \<Rightarrow> string list \<Rightarrow> string list \<Rightarrow> model \<times> variables" where
  "create_variables m df time_slots days =
     fold new_variable (concat (map (row_var_names time_slots days) df)) (m, [])"

subsection \<open>\<^verbatim>\<open>add_basic_constraints\<close>\<close>

text \<open>The variables of one (section, part) that exist, over all days and slots.\<close>

definition section_vars :: "variables \<Rightarrow> string list \<Rightarrow> string list \<Rightarrow> string \<Rightarrow> string \<Rightarrow> int \<Rightarrow> int \<Rightarrow> var list" where
  "section_vars vars time_slots days course instructor section_id part =
     map (lookup vars)
       (filter (\<lambda>n. in_variables n vars)
         (map (\<lambda>(day, slot). x_name course instructor section_id part day slot)
           (day_slot_pairs days time_slots)))"

definition unique_slot_constr :: "variables \<Rightarrow> string list \<Rightarrow> string list \<Rightarrow> string \<Rightarrow> string \<Rightarrow> int \<Rightarrow> int \<Rightarrow> constr" where
  "unique_slot_constr vars time_slots days course instructor section_id part =
     \<lparr>c_lhs = sum_vars (section_vars vars time_slots days course instructor section_id part),
      c_sense = EQ, c_rhs = const_expr 1,
      c_name = ''unique_slot_'' @ course @ ''_'' @ instructor @ ''_'' @ str_int section_id
                 @ ''_'' @ str_int part\<rparr>"

definition unique_slot_constrs :: "row list \<Rightarrow> variables \<Rightarrow> string list \<Rightarrow> string list \<Rightarrow> constr list" where
  "unique_slot_constrs df vars time_slots days =
     concat (map (\<lambda>r.
       if Sections r = 0 then []
       else concat (map (\<lambda>section_id.
              concat (map (\<lambda>part.
                if section_vars vars time_slots days (Course r) (Instructor r) section_id part \<noteq> []
                then [unique_slot_constr vars time_slots days (Course r) (Instructor r) section_id part]
                else []) parts)) (range1 (Sections r)))) df)"

text \<open>The variables of one instructor at one (day, slot), over the instructor's rows.\<close>

definition instructor_vars :: "row list \<Rightarrow> variables \<Rightarrow> string \<Rightarrow> string \<Rightarrow> string \<Rightarrow> var list" where
  "instructor_vars df vars instructor day slot =
     map (lookup vars)
       (filter (\<lambda>n. in_variables n vars)
         (concat (map (\<lambda>r.
            concat (map (\<lambda>section_id.
              map (\<lambda>part. x_name (Course r) instructor section_id part day slot) parts)
              (range1 (Sections r))))
            (filter (\<lambda>r. Instructor r = instructor) df))))"

definition one_section_per_slot_constrs :: "row list \<Rightarrow> variables \<Rightarrow> string list \<Rightarrow> string list \<Rightarrow> constr list" where
  "one_section_per_slot_constrs df vars time_slots days =
     concat (map (\<lambda>instructor.
       concat (map (\<lambda>(day, slot).
         if instructor_vars df vars instructor day slot \<noteq> []
         then [\<lparr>c_lhs = sum_vars (instructor_vars df vars instructor day slot),
                c_sense = LE, c_rhs = const_expr 1,
                c_name = ''one_section_per_slot_'' @ instructor @ ''_'' @ day @ ''_'' @ slot\<rparr>]
         else []) (day_slot_pairs days time_slots)))
       (unique (map Instructor df)))"

definition add_basic_constraints :: "model \<Rightarrow> row list \<Rightarrow> variables \<Rightarrow> string list \<Rightarrow> string list \<Rightarrow> model" where
  "add_basic_constraints m df vars time_slots days =
     addConstrs (addConstrs m (unique_slot_constrs df vars time_slots days))
       (one_section_per_slot_constrs df vars time_slots days)"

text \<open>The dictionary is sound for a model: every stored variable exists in the model, and no
  two names share a variable.\<close>

definition vars_ok :: "model \<Rightarrow> variables \<Rightarrow> bool" where
  "vars_ok m vars =
     ((\<forall>n v. map_of vars n = Some v \<longrightarrow> v < length (var_names m)) \<and>
      (\<forall>n n' v. map_of vars n = Some v \<longrightarrow> map_of vars n' = Some v \<longrightarrow> n = n'))"

subsection \<open>A small instance for the exactly-one-slot rule\<close>

definition w_row :: row where
  "w_row = \<lparr>Course = ''CS100'', Instructor = ''Smith'', Course_Number = ''100'',
            Email = ''smith'', Sections = 1\<rparr>"

definition w_days :: "string list" where "w_days = [''Monday'']"

definition w_slots :: "string list" where "w_slots = [''8:30-10:00 AM'', ''10:00-11:30 AM'']"

definition w_sol :: "var \<Rightarrow> int" where "w_sol v = (if v = 0 \<or> v = 3 then 1 else 0)"

subsection \<open>Python values and string operations used by the preference loop\<close>

datatype py_error = KeyError | ValueError | AttributeError

text \<open>A spreadsheet cell as pandas delivers it: a string, a float (the NaN of an empty cell is
  a float), or a value of another type (an integer, a boolean, a date), which is neither a
  string nor a float and has no \<^verbatim>\<open>split\<close> method.\<close>

datatype cell = Str string | FloatCell | OtherCell

record pref_row =
  instructor_info :: cell
  slots :: cell

text \<open>\<^verbatim>\<open>s.split(c)\<close> for a one-character separator.\<close>

fun cons_first :: "char \<Rightarrow> string list \<Rightarrow> string list" where
  "cons_first x [] = [[x]]"
| "cons_first x (w # ws) = (x # w) # ws"

fun split_char :: "char \<Rightarrow> string \<Rightarrow> string list" where
  "split_char c [] = [[]]"
| "split_char c (x # xs) = (if x = c then [] # split_char c xs else cons_first x (split_char c xs))"

text \<open>\<^verbatim>\<open>s.split(ab)\<close> for a two-character separator, matched left to right.\<close>

fun split2 :: "char \<Rightarrow> char \<Rightarrow> string \<Rightarrow> string list" where
  "split2 a b [] = [[]]"
| "split2 a b [x] = [[x]]"
| "split2 a b (x # y # ys) =
     (if x = a \<and> y = b then [] # split2 a b ys else cons_first x (split2 a b (y # ys)))"

subsection \<open>\<^verbatim>\<open>add_preference_constraints\<close>: the loop over the preference rows\<close>

definition time_slot_mapping :: "char \<Rightarrow> string option" where
  "time_slot_mapping = map_of
     [(CHR ''M'', ''Monday''), (CHR ''T'', ''Tuesday''), (CHR ''W'', ''Wednesday''),
      (CHR ''R'', ''Thursday''), (CHR ''F'', ''Friday'')]"

definition time_slot_index :: "char \<Rightarrow> string option" where
  "time_slot_index = map_of
     [(CHR ''1'', ''8:30-10:00 AM''), (CHR ''2'', ''10:00-11:30 AM''), (CHR ''3'', ''11:30-1:00 PM''),
      (CHR ''4'', ''1:00-2:30 PM''), (CHR ''5'', ''2:30-4:00 PM''), (CHR ''6'', ''4:00-5:30 PM''),
      (CHR ''7'', ''6:00-7:30 PM''), (CHR ''8'', ''7:30-9:00 PM'')]"

text \<open>The state the loop threads: the model, the objective expression \<^verbatim>\<open>total_points\<close> under
  construction, and what was printed.\<close>

record pstate =
  p_model :: model
  total_points :: linexpr
  printed :: "string list"

text \<open>\<^verbatim>\<open>e += c * v\<close> on a linear expression.\<close>

definition add_term :: "linexpr \<Rightarrow> int \<Rightarrow> var \<Rightarrow> linexpr" where
  "add_term e c v = (fst e @ [(c, v)], snd e)"

definition is_protected :: "string \<Rightarrow> bool" where
  "is_protected constraint_type = (strip constraint_type \<in> set [''Health'', ''Religion''])"

definition points_of :: "string \<Rightarrow> int" where
  "points_of constraint_type =
     (if is_protected constraint_type then - 2048
      else if strip constraint_type = ''Pref-1'' then 8
      else if strip constraint_type = ''Pref-2'' then 4
      else if strip constraint_type = ''Pref-3'' then 2
      else if strip constraint_type = ''Childcare'' then - 1024
      else - 8)"

text \<open>\<^verbatim>\<open>blocked_slots = slots.split("|")[1:-1]\<close>.\<close>

definition blocked_slots :: "string \<Rightarrow> string list" where
  "blocked_slots s = butlast (tl (split_char CHR ''|'' s))"

text \<open>The section count of the first row of this instructor and course. The course is
  drawn from the instructor's own rows, so such a row exists; \<open>0\<close> stands for the
  \<^verbatim>\<open>.iloc[0]\<close> on an empty selection that cannot occur.\<close>

definition num_sections_of :: "row list \<Rightarrow> string \<Rightarrow> string \<Rightarrow> int" where
  "num_sections_of df instructor_name course =
     (case filter (\<lambda>r. Instructor r = instructor_name \<and> Course r = course)
             (filter (\<lambda>r. Course r = course) df) of
        [] \<Rightarrow> 0
      | r # _ \<Rightarrow> Sections r)"

text \<open>The (course, section, part) triples the three inner loops visit, in order.\<close>

definition pref_targets :: "row list \<Rightarrow> string \<Rightarrow> (string \<times> int \<times> int) list" where
  "pref_targets df instructor_name =
     concat (map (\<lambda>course.
       concat (map (\<lambda>section_id. map (\<lambda>part. (course, section_id, part)) parts)
         (range1 (num_sections_of df instructor_name course))))
       (map Course (filter (\<lambda>r. Instructor r = instructor_name) df)))"

definition slack_name :: "string \<Rightarrow> string \<Rightarrow> int \<Rightarrow> int \<Rightarrow> string \<Rightarrow> string \<Rightarrow> string" where
  "slack_name course instructor section_id part day slot =
     ''Slack_'' @ course @ ''_'' @ instructor @ ''_'' @ str_int section_id @ ''_'' @ str_int part
       @ ''_'' @ day @ ''_'' @ slot"

text \<open>The constraint \<^verbatim>\<open>x <= slack\<close>; it is added without a name.\<close>

definition le_var_constr :: "var \<Rightarrow> var \<Rightarrow> constr" where
  "le_var_constr x y = \<lparr>c_lhs = var_expr x, c_sense = LE, c_rhs = var_expr y, c_name = []\<rparr>"

definition add_slack :: "var \<Rightarrow> string \<Rightarrow> pstate \<Rightarrow> pstate" where
  "add_slack x slack_var_name st =
     (case addVar (p_model st) slack_var_name of
        (slack_var, m1) \<Rightarrow>
          st\<lparr>p_model := addConstr m1 (le_var_constr x slack_var),
             total_points := add_term (total_points st) (- 2048) slack_var\<rparr>)"

definition pref_var_step ::
  "variables \<Rightarrow> string \<Rightarrow> int \<Rightarrow> string \<Rightarrow> string \<Rightarrow> string \<Rightarrow> string \<times> int \<times> int \<Rightarrow> pstate \<Rightarrow> pstate" where
  "pref_var_step vars constraint_type points instructor_name day_full time_slot_full t st =
     (case t of (course, section_id, part) \<Rightarrow>
        let var_name = x_name course instructor_name section_id part day_full time_slot_full in
        if in_variables var_name vars then
          if is_protected constraint_type
          then add_slack (lookup vars var_name)
                 (slack_name course instructor_name section_id part day_full time_slot_full) st
          else st\<lparr>total_points := add_term (total_points st) points (lookup vars var_name)\<rparr>
        else st)"

definition process_slot_code ::
  "row list \<Rightarrow> variables \<Rightarrow> string \<Rightarrow> string \<Rightarrow> int \<Rightarrow> string \<Rightarrow> pstate \<Rightarrow> py_error + pstate" where
  "process_slot_code df vars email constraint_type points slot_code st =
     (if length slot_code < 2 then Inr st
      else case time_slot_mapping (slot_code ! 0) of
        None \<Rightarrow> Inl KeyError
      | Some day_full \<Rightarrow>
         (case time_slot_index (slot_code ! 1) of
            None \<Rightarrow> Inl KeyError
          | Some time_slot_full \<Rightarrow>
             (case filter (\<lambda>r. Email r = email) df of
                [] \<Rightarrow> Inr st
              | instructor_row # _ \<Rightarrow>
                  Inr (fold (pref_var_step vars constraint_type points (Instructor instructor_row)
                               day_full time_slot_full)
                         (pref_targets df (Instructor instructor_row)) st))))"

fun process_slot_codes ::
  "row list \<Rightarrow> variables \<Rightarrow> string \<Rightarrow> string \<Rightarrow> int \<Rightarrow> string list \<Rightarrow> pstate \<Rightarrow> py_error + pstate" where
  "process_slot_codes df vars email constraint_type points [] st = Inr st"
| "process_slot_codes df vars email constraint_type points (slot_code # rest) st =
     (case process_slot_code df vars email constraint_type points slot_code st of
        Inl e \<Rightarrow> Inl e
      | Inr st' \<Rightarrow> process_slot_codes df vars email constraint_type points rest st')"

text \<open>One row that is not a float: \<^verbatim>\<open>email, constraint_type = instructor_info.split(": ")\<close>
  raises ValueError unless the split gives exactly two pieces; \<^verbatim>\<open>slots.split("|")\<close> raises
  AttributeError on a cell that is not a string.\<close>

definition process_pref_row :: "row list \<Rightarrow> variables \<Rightarrow> string \<Rightarrow> cell \<Rightarrow> pstate \<Rightarrow> py_error + pstate" where
  "process_pref_row df vars info slots_cell st =
     (case split2 CHR '':'' CHR '' '' info of
        [email, constraint_type] \<Rightarrow>
          (case slots_cell of
             Str s \<Rightarrow>
               process_slot_codes df vars email constraint_type (points_of constraint_type)
                 (blocked_slots s) st
           | FloatCell \<Rightarrow> Inl AttributeError
           | OtherCell \<Rightarrow> Inl AttributeError)
      | _ \<Rightarrow> Inl ValueError)"

text \<open>The loop over the rows. It breaks at the first row whose instructor cell is a float
  (\<^verbatim>\<open>isinstance(instructor_info, float)\<close>); on any other cell that is not a string,
  \<^verbatim>\<open>instructor_info.split(": ")\<close> raises AttributeError.\<close>

fun process_constraints :: "row list \<Rightarrow> variables \<Rightarrow> pref_row list \<Rightarrow> pstate \<Rightarrow> py_error + pstate" where
  "process_constraints df vars [] st = Inr st"
| "process_constraints df vars (r # rs) st =
     (case instructor_info r of
        FloatCell \<Rightarrow> Inr st
      | OtherCell \<Rightarrow> Inl AttributeError
      | Str info \<Rightarrow>
          (case process_pref_row df vars info (slots r) st of
             Inl e \<Rightarrow> Inl e
           | Inr st' \<Rightarrow> process_constraints df vars rs st'))"


text \<open>For a protected entry: the existing assignment variables among the targets, each with
  the name of the slack variable created for it, in the order of the loop.\<close>

definition protected_hits ::
  "variables \<Rightarrow> string \<Rightarrow> string \<Rightarrow> string \<Rightarrow> (string \<times> int \<times> int) list \<Rightarrow> (var \<times> string) list" where
  "protected_hits vars instructor_name day_full time_slot_full ts =
     map (\<lambda>(course, section_id, part).
            (lookup vars (x_name course instructor_name section_id part day_full time_slot_full),
             slack_name course instructor_name section_id part day_full time_slot_full))
       (filter (\<lambda>(course, section_id, part).
            in_variables (x_name course instructor_name section_id part day_full time_slot_full) vars)
          ts)"

subsection \<open>Small instances for the preference loop\<close>

definition w_state :: pstate where
  "w_state = \<lparr>p_model = fst (create_variables empty_model [w_row] w_slots w_days),
              total_points = ([], 0), printed = []\<rparr>"

definition w_vars :: variables where
  "w_vars = snd (create_variables empty_model [w_row] w_slots w_days)"

text \<open>Two protected entries of one instructor that name the same slot.\<close>

definition c3_rows :: "pref_row list" where
  "c3_rows = [\<lparr>instructor_info = Str ''smith: Health'', slots = Str ''|M1|''\<rparr>,
              \<lparr>instructor_info = Str ''smith: Religion'', slots = Str ''|M1|''\<rparr>]"

subsection \<open>\<^verbatim>\<open>create_section_capacity_map\<close> and \<^verbatim>\<open>create_section_type_map\<close>\<close>

text \<open>One row of the assignments sheet before aggregation: course, instructor, capacity,
  number of sections and section type.\<close>

record offering =
  o_course :: string
  o_instructor :: string
  o_capacity :: int
  o_sections :: int
  o_section_type :: string

text \<open>\<^verbatim>\<open>df.groupby(['Course', 'Instructor'])\<close>: the groups in ascending key order, each with its
  rows in the order of the frame.\<close>

definition groupby_course_instructor :: "offering list \<Rightarrow> ((string \<times> string) \<times> offering list) list" where
  "groupby_course_instructor df =
     map (\<lambda>k. (k, filter (\<lambda>r. (o_course r, o_instructor r) = k) df))
       (sort (unique (map (\<lambda>r. (o_course r, o_instructor r)) df)))"

text \<open>The body of \<^verbatim>\<open>for _ in range(num_sections)\<close>: store the value under the current section
  number and advance the number.\<close>

definition assign_section :: "string \<Rightarrow> string \<Rightarrow> 'v \<Rightarrow> ((string \<times> string \<times> int) \<times> 'v) list \<times> int
    \<Rightarrow> ((string \<times> string \<times> int) \<times> 'v) list \<times> int" where
  "assign_section course_str instructor_str v st =
     (AList.update (course_str, instructor_str, snd st) v (fst st), snd st + 1)"

definition number_row :: "string \<Rightarrow> string \<Rightarrow> (offering \<Rightarrow> 'v) \<Rightarrow> offering
    \<Rightarrow> ((string \<times> string \<times> int) \<times> 'v) list \<times> int \<Rightarrow> ((string \<times> string \<times> int) \<times> 'v) list \<times> int" where
  "number_row course instructor val r st =
     (assign_section (strip course) (strip instructor) (val r) ^^ nat (o_sections r)) st"

text \<open>One group: \<^verbatim>\<open>section_number = 1\<close>, then the rows of the group in order.\<close>

definition number_group :: "(offering \<Rightarrow> 'v) \<Rightarrow> (string \<times> string) \<times> offering list
    \<Rightarrow> ((string \<times> string \<times> int) \<times> 'v) list \<Rightarrow> ((string \<times> string \<times> int) \<times> 'v) list" where
  "number_group val g m =
     fst (fold (number_row (fst (fst g)) (snd (fst g)) val) (snd g) (m, 1))"

definition create_section_capacity_map :: "offering list \<Rightarrow> ((string \<times> string \<times> int) \<times> int) list" where
  "create_section_capacity_map df =
     (let df_sorted = sort_key (\<lambda>r. (o_course r, o_instructor r, o_capacity r)) df
      in fold (number_group o_capacity) (groupby_course_instructor df_sorted) [])"

text \<open>The flag says whether the frame has a \<^verbatim>\<open>Section_Type\<close> column.\<close>

definition create_section_type_map :: "bool \<Rightarrow> offering list \<Rightarrow> ((string \<times> string \<times> int) \<times> string) list" where
  "create_section_type_map has_section_type df =
     (if \<not> has_section_type then []
      else let df_sorted = sort_key (\<lambda>r. (o_course r, o_instructor r)) df
           in fold (number_group o_section_type) (groupby_course_instructor df_sorted) [])"

text \<open>Two offerings of one course and instructor, the larger one first in the sheet.\<close>

definition c7_df :: "offering list" where
  "c7_df =
     [\<lparr>o_course = ''CS100'', o_instructor = ''Smith'', o_capacity = 50, o_sections = 1,
       o_section_type = ''Jersey City''\<rparr>,
      \<lparr>o_course = ''CS100'', o_instructor = ''Smith'', o_capacity = 30, o_sections = 1,
       o_section_type = ''Regular''\<rparr>]"

subsection \<open>\<^verbatim>\<open>add_additional_constraints\<close>, part 2: the Monday 4:00-5:30 PM restriction\<close>

text \<open>\<^verbatim>\<open>int(s)\<close> for a string of decimal digits, which is what the pattern \<^verbatim>\<open>(\d+)\<close> extracts
  into \<^verbatim>\<open>Course_Number\<close>. Rows without a number do not reach the aggregated frame (the
  \<^verbatim>\<open>groupby\<close> over \<^verbatim>\<open>Course_Number\<close> drops them), so the \<^verbatim>\<open>else 0\<close> of the source is not
  taken.\<close>

definition int_of_digits :: "string \<Rightarrow> int" where
  "int_of_digits s = foldl (\<lambda>a c. 10 * a + (int (of_char c) - 48)) 0 s"

text \<open>The constraint \<^verbatim>\<open>x == 0\<close>.\<close>

definition zero_constr :: "var \<Rightarrow> string \<Rightarrow> constr" where
  "zero_constr x name = \<lparr>c_lhs = var_expr x, c_sense = EQ, c_rhs = const_expr 0, c_name = name\<rparr>"

definition restricted_day :: string where
  "restricted_day = ''Monday''"

definition restricted_time_slot :: string where
  "restricted_time_slot = ''4:00-5:30 PM''"

text \<open>\<^verbatim>\<open>course_number > 199 and capacity and capacity < 35\<close>, where \<^verbatim>\<open>capacity\<close> is the result of
  \<^verbatim>\<open>section_capacity_map.get(...)\<close>: \<^verbatim>\<open>None\<close> and \<open>0\<close> are false.\<close>

definition monday_condition :: "int \<Rightarrow> int option \<Rightarrow> bool" where
  "monday_condition course_number capacity =
     (course_number > 199 \<and>
      (case capacity of None \<Rightarrow> False | Some c \<Rightarrow> c \<noteq> 0 \<and> c < 35))"

definition restricted_slot_name :: "string \<Rightarrow> string \<Rightarrow> int \<Rightarrow> int \<Rightarrow> string" where
  "restricted_slot_name course instructor section_id part =
     ''restricted_slot_'' @ course @ ''_'' @ instructor @ ''_'' @ str_int section_id @ ''_''
       @ str_int part @ ''_'' @ restricted_day @ ''_'' @ restricted_time_slot"

text \<open>The constraints the two inner loops add when the condition fails for some \<^verbatim>\<open>sc\<close>: one
  for every existing variable of every section of the row.\<close>

definition zero_force_row :: "variables \<Rightarrow> row \<Rightarrow> constr list" where
  "zero_force_row vars r =
     concat (map (\<lambda>section_id.
       concat (map (\<lambda>part.
         let var_name = x_name (Course r) (Instructor r) section_id part restricted_day
                          restricted_time_slot
         in if in_variables var_name vars
            then [zero_constr (lookup vars var_name)
                    (restricted_slot_name (Course r) (Instructor r) section_id part)]
            else []) parts))
       (range1 (Sections r)))"

definition restricted_slot_constrs ::
  "row list \<Rightarrow> variables \<Rightarrow> ((string \<times> string \<times> int) \<times> int) list \<Rightarrow> constr list" where
  "restricted_slot_constrs df vars section_capacity_map =
     concat (map (\<lambda>r.
       concat (map (\<lambda>sc.
         if \<not> monday_condition (int_of_digits (Course_Number r))
                 (map_of section_capacity_map (Course r, Instructor r, sc))
         then zero_force_row vars r
         else []) (range1 (Sections r)))) df)"

text \<open>A course above 199 with a small and a large section.\<close>

definition c4_offerings :: "offering list" where
  "c4_offerings =
     [\<lparr>o_course = ''CS301'', o_instructor = ''Smith'', o_capacity = 30, o_sections = 1,
       o_section_type = ''Regular''\<rparr>,
      \<lparr>o_course = ''CS301'', o_instructor = ''Smith'', o_capacity = 50, o_sections = 1,
       o_section_type = ''Regular''\<rparr>]"

definition c4_row :: row where
  "c4_row = \<lparr>Course = ''CS301'', Instructor = ''Smith'', Course_Number = ''301'',
             Email = ''smith'', Sections = 2\<rparr>"

definition c4_vars :: variables where
  "c4_vars = snd (create_variables empty_model [c4_row] [restricted_time_slot] [restricted_day])"

subsection \<open>\<^verbatim>\<open>add_balance_constraints\<close>\<close>

definition is_digit :: "char \<Rightarrow> bool" where
  "is_digit c = (48 \<le> (of_char c :: nat) \<and> (of_char c :: nat) \<le> 57)"

text \<open>\<^verbatim>\<open>int(s)\<close> for a string without underscores (the code applies it to a piece of a name
  split at the underscores): surrounding white space and one sign are allowed; anything
  else but decimal digits raises ValueError (\<open>None\<close>).\<close>

definition parse_int :: "string \<Rightarrow> int option" where
  "parse_int s =
     (case strip s of
        [] \<Rightarrow> None
      | c # cs \<Rightarrow>
          if c = CHR ''-'' \<or> c = CHR ''+'' then
            (if cs \<noteq> [] \<and> list_all is_digit cs
             then Some ((if c = CHR ''-'' then - 1 else 1) * int_of_digits cs) else None)
          else if list_all is_digit (c # cs) then Some (int_of_digits (c # cs)) else None)"

text \<open>\<^verbatim>\<open>s.lower()\<close> on code points below 256: the letters A to Z, and 192 to 222 without
  215, move up by 32.\<close>

definition lower_char :: "char \<Rightarrow> char" where
  "lower_char c =
     (let n = (of_char c :: nat) in
      if (65 \<le> n \<and> n \<le> 90) \<or> (192 \<le> n \<and> n \<le> 222 \<and> n \<noteq> 215)
      then char_of (n + 32) else c)"

definition is_jersey_city :: "string \<Rightarrow> bool" where
  "is_jersey_city stype = (map lower_char (strip stype) = ''jersey city'')"

type_synonym type_map = "((string \<times> string \<times> int) \<times> string) list"

text \<open>\<^verbatim>\<open>section_type_map.get(key, "")\<close>.\<close>

definition get_type :: "type_map \<Rightarrow> string \<times> string \<times> int \<Rightarrow> string" where
  "get_type section_type_map k = (case map_of section_type_map k of None \<Rightarrow> [] | Some t \<Rightarrow> t)"

definition name_parts :: "string \<Rightarrow> string list" where
  "name_parts var_name = split_char CHR ''_'' var_name"

definition is_jc_var :: "type_map \<Rightarrow> string \<Rightarrow> bool" where
  "is_jc_var section_type_map var_name =
     (let ps = name_parts var_name in
      if length ps < 7 then False
      else case parse_int (ps ! 3) of
             None \<Rightarrow> False
           | Some section_id \<Rightarrow>
               is_jersey_city (get_type section_type_map (ps ! 1, ps ! 2, section_id)))"

record pre_scheduled =
  ps_instructor :: string
  ps_day :: string
  ps_time :: string

definition block_constrs :: "variables \<Rightarrow> pre_scheduled list \<Rightarrow> constr list" where
  "block_constrs vars df_pre_scheduled =
     concat (map (\<lambda>r.
       concat (map (\<lambda>(var_name, v).
         let ps = name_parts var_name in
         if length ps \<ge> 7 \<and> ps ! 2 = ps_instructor r \<and> ps ! 5 = ps_day r \<and> ps ! 6 = ps_time r
         then [zero_constr v (''block_'' @ ps_instructor r @ ''_'' @ ps_day r @ ''_'' @ ps_time r)]
         else []) vars)) df_pre_scheduled)"

definition total_section_parts :: "row list \<Rightarrow> int" where
  "total_section_parts df = 2 * sum_list (map Sections df)"

definition banned_slots :: "(string \<times> string) list" where
  "banned_slots =
     [(''Friday'', ''11:30-1:00 PM''), (''Wednesday'', ''2:30-4:00 PM''),
      (''Wednesday'', ''4:00-5:30 PM'')]"

text \<open>The variables of the dictionary at a (day, slot), in dictionary order.\<close>

definition slot_vars_at :: "variables \<Rightarrow> string \<Rightarrow> string \<Rightarrow> var list" where
  "slot_vars_at vars day slot =
     map snd (filter (\<lambda>(var_name, v).
        length (name_parts var_name) \<ge> 7 \<and> name_parts var_name ! 5 = day
        \<and> name_parts var_name ! 6 = slot) vars)"

definition banned_constrs :: "variables \<Rightarrow> constr list" where
  "banned_constrs vars =
     concat (map (\<lambda>(day, slot).
       if slot_vars_at vars day slot \<noteq> []
       then [\<lparr>c_lhs = sum_vars (slot_vars_at vars day slot), c_sense = EQ, c_rhs = const_expr 0,
              c_name = ''BANNED_SLOT_'' @ day @ ''_'' @ slot\<rparr>]
       else []) banned_slots)"

definition banned_prints :: "variables \<Rightarrow> string list" where
  "banned_prints vars =
     concat (map (\<lambda>(day, slot).
       if slot_vars_at vars day slot \<noteq> []
       then [''BANNED: '' @ day @ '' '' @ slot @ '' - ''
               @ str_int (int (length (slot_vars_at vars day slot))) @ '' variables forced to 0'']
       else []) banned_slots)"

text \<open>The table \<^verbatim>\<open>slot_percentages\<close> in the order it is written: slot by slot, the five days
  of each. The fractions are exact here; the source holds them as binary floating point
  numbers.\<close>

definition slot_percentages :: "((string \<times> string) \<times> rat) list" where
  "slot_percentages =
     [((''Monday'', ''8:30-10:00 AM''), 20 / 100), ((''Tuesday'', ''8:30-10:00 AM''), 20 / 100),
      ((''Wednesday'', ''8:30-10:00 AM''), 25 / 100), ((''Thursday'', ''8:30-10:00 AM''), 20 / 100),
      ((''Friday'', ''8:30-10:00 AM''), 20 / 100),
      ((''Monday'', ''10:00-11:30 AM''), 20 / 100), ((''Tuesday'', ''10:00-11:30 AM''), 20 / 100),
      ((''Wednesday'', ''10:00-11:30 AM''), 25 / 100), ((''Thursday'', ''10:00-11:30 AM''), 20 / 100),
      ((''Friday'', ''10:00-11:30 AM''), 20 / 100),
      ((''Monday'', ''11:30-1:00 PM''), 20 / 100), ((''Tuesday'', ''11:30-1:00 PM''), 20 / 100),
      ((''Wednesday'', ''11:30-1:00 PM''), 25 / 100), ((''Thursday'', ''11:30-1:00 PM''), 20 / 100),
      ((''Friday'', ''11:30-1:00 PM''), 0),
      ((''Monday'', ''1:00-2:30 PM''), 20 / 100), ((''Tuesday'', ''1:00-2:30 PM''), 20 / 100),
      ((''Wednesday'', ''1:00-2:30 PM''), 25 / 100), ((''Thursday'', ''1:00-2:30 PM''), 20 / 100),
      ((''Friday'', ''1:00-2:30 PM''), 20 / 100),
      ((''Monday'', ''2:30-4:00 PM''), 20 / 100), ((''Tuesday'', ''2:30-4:00 PM''), 20 / 100),
      ((''Wednesday'', ''2:30-4:00 PM''), 0), ((''Thursday'', ''2:30-4:00 PM''), 20 / 100),
      ((''Friday'', ''2:30-4:00 PM''), 20 / 100),
      ((''Monday'', ''4:00-5:30 PM''), 20 / 100), ((''Tuesday'', ''4:00-5:30 PM''), 20 / 100),
      ((''Wednesday'', ''4:00-5:30 PM''), 0), ((''Thursday'', ''4:00-5:30 PM''), 20 / 100),
      ((''Friday'', ''4:00-5:30 PM''), 20 / 100),
      ((''Monday'', ''6:00-7:30 PM''), 20 / 100), ((''Tuesday'', ''6:00-7:30 PM''), 20 / 100),
      ((''Wednesday'', ''6:00-7:30 PM''), 20 / 100), ((''Thursday'', ''6:00-7:30 PM''), 20 / 100),
      ((''Friday'', ''6:00-7:30 PM''), 20 / 100),
      ((''Monday'', ''7:30-9:00 PM''), 20 / 100), ((''Tuesday'', ''7:30-9:00 PM''), 20 / 100),
      ((''Wednesday'', ''7:30-9:00 PM''), 20 / 100), ((''Thursday'', ''7:30-9:00 PM''), 20 / 100),
      ((''Friday'', ''7:30-9:00 PM''), 20 / 100)]"

text \<open>As \<open>slot_vars_at\<close>, without the variables of Jersey City sections.\<close>

definition balance_vars :: "variables \<Rightarrow> type_map \<Rightarrow> string \<Rightarrow> string \<Rightarrow> var list" where
  "balance_vars vars section_type_map day slot =
     map snd (filter (\<lambda>(var_name, v).
        length (name_parts var_name) \<ge> 7 \<and> name_parts var_name ! 5 = day
        \<and> name_parts var_name ! 6 = slot \<and> \<not> is_jc_var section_type_map var_name) vars)"

definition balance_constrs :: "row list \<Rightarrow> variables \<Rightarrow> type_map \<Rightarrow> constr list" where
  "balance_constrs df vars section_type_map =
     concat (map (\<lambda>((day, slot), percentage).
       if (day, slot) \<in> set banned_slots then []
       else if balance_vars vars section_type_map day slot \<noteq> []
       then [\<lparr>c_lhs = sum_vars (balance_vars vars section_type_map day slot), c_sense = LE,
              c_rhs = const_expr
                (of_int \<lceil>(percentage / 6) * of_int (total_section_parts df)\<rceil>),
              c_name = ''balance_slot_'' @ day @ ''_'' @ slot\<rparr>]
       else []) slot_percentages)"

definition evening_percentage :: rat where
  "evening_percentage = 20 / 100"

definition evening_slots :: "string list" where
  "evening_slots = [''6:00-7:30 PM'', ''7:30-9:00 PM'']"

text \<open>The variables of the dictionary at a slot on any day, without those of Jersey City
  sections.\<close>

definition evening_vars :: "variables \<Rightarrow> type_map \<Rightarrow> string \<Rightarrow> var list" where
  "evening_vars vars section_type_map slot =
     map snd (filter (\<lambda>(var_name, v).
        length (name_parts var_name) \<ge> 7 \<and> name_parts var_name ! 6 = slot
        \<and> \<not> is_jc_var section_type_map var_name) vars)"

definition max_section_parts_evening :: "row list \<Rightarrow> rat" where
  "max_section_parts_evening df = (evening_percentage / 6) * of_int (total_section_parts df)"

definition evening_constr :: "row list \<Rightarrow> variables \<Rightarrow> type_map \<Rightarrow> string \<Rightarrow> constr" where
  "evening_constr df vars section_type_map slot =
     \<lparr>c_lhs = sum_vars (evening_vars vars section_type_map slot), c_sense = LE,
      c_rhs = const_expr (max_section_parts_evening df),
      c_name = ''balance_evening_'' @ slot\<rparr>"

definition evening_constrs :: "row list \<Rightarrow> variables \<Rightarrow> type_map \<Rightarrow> constr list" where
  "evening_constrs df vars section_type_map =
     concat (map (\<lambda>slot.
       if evening_vars vars section_type_map slot \<noteq> []
       then [evening_constr df vars section_type_map slot]
       else []) evening_slots)"

text \<open>The function returns the model and the lines it printed.\<close>

definition add_balance_constraints ::
  "model \<Rightarrow> row list \<Rightarrow> variables \<Rightarrow> pre_scheduled list \<Rightarrow> type_map \<Rightarrow> model \<times> string list" where
  "add_balance_constraints m df vars df_pre_scheduled section_type_map =
     (addConstrs m
        (block_constrs vars df_pre_scheduled @ banned_constrs vars
           @ balance_constrs df vars section_type_map @ evening_constrs df vars section_type_map),
      banned_prints vars)"


text \<open>The code recovers instructor, day and slot of a variable by splitting its name at the
  underscores. That reads the right pieces when no course, instructor, day or slot
  contains an underscore, as is the case for the days and slots of \<^verbatim>\<open>main\<close>.\<close>

definition no_underscore :: "string \<Rightarrow> bool" where
  "no_underscore s = (CHR ''_'' \<notin> set s)"

definition names_wf :: "row list \<Rightarrow> string list \<Rightarrow> string list \<Rightarrow> bool" where
  "names_wf df time_slots days =
     (list_all (\<lambda>r. no_underscore (Course r) \<and> no_underscore (Instructor r)) df
      \<and> list_all no_underscore days \<and> list_all no_underscore time_slots)"

text \<open>Fifteen sections (thirty parts) of one course, on one day with the two evening slots:
  the evening fraction of the parts is \<open>(0.20 / 6) * 30 = 1\<close>.\<close>

definition c5_row :: row where
  "c5_row = \<lparr>Course = ''CS100'', Instructor = ''Smith'', Course_Number = ''100'',
             Email = ''smith'', Sections = 15\<rparr>"

definition c5_vars :: variables where
  "c5_vars = snd (create_variables empty_model [c5_row] evening_slots [''Monday''])"

text \<open>Part 1 of section 1 at 6:00 PM and part 2 of section 1 at 7:30 PM, nothing else.\<close>

definition c5_sol :: "var \<Rightarrow> int" where
  "c5_sol v =
     (if v = lookup c5_vars (x_name ''CS100'' ''Smith'' 1 1 ''Monday'' ''6:00-7:30 PM'')
         \<or> v = lookup c5_vars (x_name ''CS100'' ''Smith'' 1 2 ''Monday'' ''7:30-9:00 PM'')
      then 1 else 0)"

text \<open>The same fifteen sections on one day with the slot 6:00 PM only, and part 1 of section 1
  scheduled there.\<close>

definition w5_vars :: variables where
  "w5_vars = snd (create_variables empty_model [c5_row] [''6:00-7:30 PM''] [''Monday''])"

definition w5_model :: model where
  "w5_model =
     fst (add_balance_constraints
            (fst (create_variables empty_model [c5_row] [''6:00-7:30 PM''] [''Monday'']))
            [c5_row] w5_vars [] [])"

definition w5_sol :: "var \<Rightarrow> int" where
  "w5_sol v =
     (if v = lookup w5_vars (x_name ''CS100'' ''Smith'' 1 1 ''Monday'' ''6:00-7:30 PM'')
      then 1 else 0)"

text \<open>An instructor whose name contains an underscore, with one section.\<close>

definition u5_row :: row where
  "u5_row = \<lparr>Course = ''CS100'', Instructor = ''Smith_Jr'', Course_Number = ''100'',
             Email = ''smith'', Sections = 1\<rparr>"

definition u5_vars :: variables where
  "u5_vars = snd (create_variables empty_model [u5_row] evening_slots [''Monday''])"

section \<open>Properties\<close>

subsection \<open>Creating the assignment variables\<close>

lemma vars_ok_empty: "vars_ok m []"
  by (simp add: vars_ok_def)

lemma new_variable_ok:
  assumes ok: "vars_ok m vars" and nv: "new_variable name (m, vars) = (m', vars')"
  shows "vars_ok m' vars' \<and> var_names m' = var_names m @ [name] \<and> constrs m' = constrs m
         \<and> objective m' = objective m \<and> dom (map_of vars') = insert name (dom (map_of vars))"
proof -
  from nv have m': "m' = m\<lparr>var_names := var_names m @ [name]\<rparr>"
    and v': "map_of vars' = (map_of vars)(name \<mapsto> length (var_names m))"
    by (auto simp: new_variable_def addVar_def update_conv')
  from ok have lt: "\<And>n v. map_of vars n = Some v \<Longrightarrow> v < length (var_names m)"
    and inj: "\<And>n n' v. map_of vars n = Some v \<Longrightarrow> map_of vars n' = Some v \<Longrightarrow> n = n'"
    by (auto simp: vars_ok_def)
  have "vars_ok m' vars'"
    unfolding vars_ok_def v' m'
  proof (intro conjI allI impI)
    fix n v assume "((map_of vars)(name \<mapsto> length (var_names m))) n = Some v"
    then show "v < length (var_names (m\<lparr>var_names := var_names m @ [name]\<rparr>))"
      using lt [of n v] by (auto split: if_splits)
  next
    fix n n' v
    assume a: "((map_of vars)(name \<mapsto> length (var_names m))) n = Some v"
      and b: "((map_of vars)(name \<mapsto> length (var_names m))) n' = Some v"
    show "n = n'"
    proof (cases "n = name")
      case True
      with a have "v = length (var_names m)" by simp
      with b lt [of n' v] have "n' = name" by (auto split: if_splits)
      with True show ?thesis by simp
    next
      case False
      with a have an: "map_of vars n = Some v" by simp
      with lt have "v < length (var_names m)" by blast
      with b have "map_of vars n' = Some v" by (auto split: if_splits)
      with an inj show ?thesis by blast
    qed
  qed
  with m' v' show ?thesis by auto
qed

lemma fold_new_variable:
  assumes "vars_ok m vars" and "fold new_variable names (m, vars) = (m', vars')"
  shows "vars_ok m' vars' \<and> var_names m' = var_names m @ names \<and> constrs m' = constrs m
         \<and> objective m' = objective m \<and> dom (map_of vars') = set names \<union> dom (map_of vars)"
  using assms
proof (induction names arbitrary: m vars)
  case Nil
  then show ?case by simp
next
  case (Cons a names)
  obtain m1 vars1 where s: "new_variable a (m, vars) = (m1, vars1)" by (cases "new_variable a (m, vars)")
  from new_variable_ok [OF Cons.prems(1) s] Cons.IH [of m1 vars1] Cons.prems(2) s
  show ?case by auto
qed

lemma sum_one_unique:
  fixes sol :: "var \<Rightarrow> int"
  assumes "distinct vs" and "\<forall>v \<in> set vs. sol v = 0 \<or> sol v = 1"
    and "sum_list (map sol vs) = 1"
  shows "\<exists>!v. v \<in> set vs \<and> sol v = 1"
  using assms
proof (induction vs)
  case Nil
  then show ?case by simp
next
  case (Cons a vs)
  have nonneg: "0 \<le> sum_list (map sol vs)"
    using Cons.prems(2) by (intro sum_list_nonneg) auto
  show ?case
  proof (cases "sol a = 1")
    case True
    with Cons.prems have z: "sum_list (map sol vs) = 0" by simp
    have "\<forall>v \<in> set vs. sol v = 0"
    proof
      fix v assume "v \<in> set vs"
      then have "sol v \<le> sum_list (map sol vs)"
        using Cons.prems(2) by (intro member_le_sum_list) auto
      with z Cons.prems(2) \<open>v \<in> set vs\<close> show "sol v = 0" by auto
    qed
    with True show ?thesis by auto
  next
    case False
    with Cons.prems have a0: "sol a = 0" by auto
    with Cons.prems have "\<exists>!v. v \<in> set vs \<and> sol v = 1" by (intro Cons.IH) auto
    with a0 show ?thesis by auto
  qed
qed

lemma eval_sum_vars: "eval_lin sol (sum_vars vs) = of_int (sum_list (map sol vs))"
  by (induction vs) (auto simp: eval_lin_def sum_vars_def)

lemma eval_const_expr: "eval_lin sol (const_expr k) = k"
  by (simp add: eval_lin_def const_expr_def)

lemma constrs_add_basic:
  "constrs (add_basic_constraints m df vars time_slots days) =
     constrs m @ unique_slot_constrs df vars time_slots days
       @ one_section_per_slot_constrs df vars time_slots days"
  by (simp add: add_basic_constraints_def addConstrs_def)

lemma var_names_add_basic:
  "var_names (add_basic_constraints m df vars time_slots days) = var_names m"
  by (simp add: add_basic_constraints_def addConstrs_def)

lemma create_variables_ok:
  assumes "create_variables m0 df time_slots days = (m1, vars)"
  shows "vars_ok m1 vars \<and> dom (map_of vars) = set (concat (map (row_var_names time_slots days) df))
         \<and> constrs m1 = constrs m0"
  using fold_new_variable [OF vars_ok_empty, of _ m0 m1 vars] assms
  by (auto simp: create_variables_def)

lemma x_name_created:
  assumes "r \<in> set df" and "section_id \<in> set (range1 (Sections r))" and "part \<in> set parts"
    and "ds \<in> set (day_slot_pairs days time_slots)"
  shows "x_name (Course r) (Instructor r) section_id part (fst ds) (snd ds)
           \<in> set (concat (map (row_var_names time_slots days) df))"
proof -
  from assms(2) have "Sections r \<noteq> 0" by (auto simp: range1_def)
  with assms(2-4) have "x_name (Course r) (Instructor r) section_id part (fst ds) (snd ds)
      \<in> set (row_var_names time_slots days r)"
    by (force simp: row_var_names_def)
  with assms(1) show ?thesis by auto
qed

lemma x_name_inj_day_slot:
  "x_name c i s p d sl = x_name c i s p d' sl' \<longleftrightarrow> d @ ''_'' @ sl = d' @ ''_'' @ sl'"
  by (simp add: x_name_def)

text \<open>
  Claim C1. For every row of the assignments table (a course/instructor pair), every section
  index \<open>1..N\<close> and every part in \<open>{1, 2}\<close>, the model holds the constraint
  \<^verbatim>\<open>unique_slot_...\<close> whose left side is the sum of that (section, part)'s assignment
  variables over all (day, slot) pairs and whose right side is 1. Hence a solution the
  solver accepts sets exactly one of these variables to 1. The days and slots are not empty
  and a day/slot pair is determined by the text \<^verbatim>\<open>day_slot\<close>, as holds for the lists of
  \<^verbatim>\<open>main\<close> (lemma \<open>main_day_slot_distinct\<close>).
\<close>

theorem C1_exactly_one_slot:
  assumes cv: "create_variables m0 df time_slots days = (m1, vars)"
    and r: "r \<in> set df" and s: "section_id \<in> set (range1 (Sections r))"
    and p: "part \<in> set parts"
    and ne: "days \<noteq> []" "time_slots \<noteq> []"
    and dist: "distinct (map (\<lambda>(day, slot). day @ ''_'' @ slot) (day_slot_pairs days time_slots))"
  shows "\<lparr>c_lhs = sum_vars (map (\<lambda>(day, slot).
                     lookup vars (x_name (Course r) (Instructor r) section_id part day slot))
                   (day_slot_pairs days time_slots)),
          c_sense = EQ, c_rhs = const_expr 1,
          c_name = ''unique_slot_'' @ Course r @ ''_'' @ Instructor r @ ''_'' @ str_int section_id
                     @ ''_'' @ str_int part\<rparr>
           \<in> set (constrs (add_basic_constraints m1 df vars time_slots days))
       \<and> (accepted (add_basic_constraints m1 df vars time_slots days) sol \<longrightarrow>
            (\<exists>!ds. ds \<in> set (day_slot_pairs days time_slots) \<and>
               sol (lookup vars (x_name (Course r) (Instructor r) section_id part (fst ds) (snd ds))) = 1))"
proof -
  let ?nm = "\<lambda>(day, slot). x_name (Course r) (Instructor r) section_id part day slot"
  let ?ps = "day_slot_pairs days time_slots"
  let ?M = "add_basic_constraints m1 df vars time_slots days"
  let ?vs = "map (\<lambda>(day, slot). lookup vars (x_name (Course r) (Instructor r) section_id part day slot)) ?ps"
  let ?c = "\<lparr>c_lhs = sum_vars ?vs, c_sense = EQ, c_rhs = const_expr 1,
          c_name = ''unique_slot_'' @ Course r @ ''_'' @ Instructor r @ ''_'' @ str_int section_id
                     @ ''_'' @ str_int part\<rparr>"
  from create_variables_ok [OF cv] have ok: "vars_ok m1 vars"
    and dom: "dom (map_of vars) = set (concat (map (row_var_names time_slots days) df))" by auto
  have inv: "\<And>ds. ds \<in> set ?ps \<Longrightarrow> in_variables (?nm ds) vars"
    using x_name_created [OF r s p] dom by (auto simp: in_variables_def split_beta)
  have ps_ne: "?ps \<noteq> []"
    using ne by (cases days; cases time_slots) (auto simp: day_slot_pairs_def)
  have sv: "section_vars vars time_slots days (Course r) (Instructor r) section_id part = ?vs"
    using inv by (auto simp: section_vars_def filter_id_conv split_beta)
  have ceq: "unique_slot_constr vars time_slots days (Course r) (Instructor r) section_id part = ?c"
    by (simp add: unique_slot_constr_def sv)
  from s have nz: "Sections r \<noteq> 0" by (auto simp: range1_def)
  have "?c \<in> set (unique_slot_constrs df vars time_slots days)"
    unfolding unique_slot_constrs_def ceq [symmetric]
    using r s p nz ps_ne sv by (fastforce simp: split_beta)
  then have mem: "?c \<in> set (constrs ?M)" by (simp add: constrs_add_basic)
  have uniq: "\<exists>!ds. ds \<in> set ?ps \<and> sol (lookup vars (?nm ds)) = 1" if acc: "accepted ?M sol"
  proof -
    from acc mem have "sat sol ?c" by (auto simp: accepted_def list_all_iff)
    then have sum1: "sum_list (map sol ?vs) = 1"
      by (simp add: sat_def eval_sum_vars eval_const_expr)
    have names_dist: "distinct (map ?nm ?ps)"
      using dist by (simp add: distinct_map inj_on_def x_name_inj_day_slot split_beta) 
    have lk_inj: "inj_on (lookup vars) (set (map ?nm ?ps))"
    proof (rule inj_onI)
      fix a b assume "a \<in> set (map ?nm ?ps)" "b \<in> set (map ?nm ?ps)" and e: "lookup vars a = lookup vars b"
      then obtain va vb where "map_of vars a = Some va" "map_of vars b = Some vb"
        using inv by (fastforce simp: in_variables_def)
      with e ok show "a = b" by (auto simp: lookup_def vars_ok_def)
    qed
    have vs_eq: "?vs = map (lookup vars) (map ?nm ?ps)" by (simp add: split_beta comp_def)
    have "distinct (map (lookup vars) (map ?nm ?ps))"
      using names_dist lk_inj by (subst distinct_map) (simp only: simp_thms)
    then have vs_dist: "distinct ?vs" by (simp only: vs_eq)
    have bin: "\<forall>v \<in> set ?vs. sol v = 0 \<or> sol v = 1"
    proof
      fix v assume "v \<in> set ?vs"
      then obtain ds where "ds \<in> set ?ps" "v = lookup vars (?nm ds)" by (auto simp: split_beta)
      with inv [of ds] ok have "v < length (var_names m1)"
        by (auto simp: in_variables_def lookup_def vars_ok_def)
      with acc show "sol v = 0 \<or> sol v = 1"
        by (auto simp: accepted_def list_all_iff var_names_add_basic binary_def)
    qed
    from sum_one_unique [OF vs_dist bin sum1]
    obtain v where v: "v \<in> set ?vs" "sol v = 1" and vu: "\<And>w. w \<in> set ?vs \<Longrightarrow> sol w = 1 \<Longrightarrow> w = v"
      by blast
    from v obtain ds where ds: "ds \<in> set ?ps" "v = lookup vars (?nm ds)" by (auto simp: split_beta)
    show ?thesis
    proof (rule ex1I [of _ ds])
      show "ds \<in> set ?ps \<and> sol (lookup vars (?nm ds)) = 1" using ds v by simp
    next
      fix es assume es: "es \<in> set ?ps \<and> sol (lookup vars (?nm es)) = 1"
      then have "lookup vars (?nm es) \<in> set ?vs" by (force simp: split_beta)
      with es vu have "lookup vars (?nm es) = lookup vars (?nm ds)" using ds by simp
      with lk_inj es ds have "?nm es = ?nm ds" by (auto simp: inj_on_def)
      moreover have "inj_on ?nm (set ?ps)" using names_dist by (simp add: distinct_map)
      ultimately show "es = ds" using es ds by (auto simp: inj_on_def)
    qed
  qed
  from mem uniq show ?thesis by (simp add: split_beta)
qed

lemma main_day_slot_distinct:
  "distinct (map (\<lambda>(day, slot). day @ ''_'' @ slot) (day_slot_pairs main_days main_time_slots))"
  by code_simp
(* value "add_basic_constraints (fst (create_variables empty_model [w_row] w_slots w_days)) [w_row] (snd (create_variables empty_model [w_row] w_slots w_days)) w_slots w_days" *)

text \<open>The theorem at one course with one section, one day and two slots; the solution puts
  part 1 in the first slot and part 2 in the second.\<close>

theorem C1_exactly_one_slot_witness:
  "\<exists>!ds. ds \<in> set (day_slot_pairs w_days w_slots) \<and>
      w_sol (lookup (snd (create_variables empty_model [w_row] w_slots w_days))
               (x_name (Course w_row) (Instructor w_row) 1 1 (fst ds) (snd ds))) = 1"
proof -
  let ?cv = "create_variables empty_model [w_row] w_slots w_days"
  have cv: "?cv = (fst ?cv, snd ?cv)" by simp
  have r: "w_row \<in> set [w_row]" by simp
  have s: "1 \<in> set (range1 (Sections w_row))" by code_simp
  have p: "1 \<in> set parts" by code_simp
  have ne: "w_days \<noteq> []" "w_slots \<noteq> []" by (simp_all add: w_days_def w_slots_def)
  have dist: "distinct (map (\<lambda>(day, slot). day @ ''_'' @ slot) (day_slot_pairs w_days w_slots))"
    by code_simp
  have acc: "accepted (add_basic_constraints (fst ?cv) [w_row] (snd ?cv) w_slots w_days) w_sol"
    by code_simp
  from C1_exactly_one_slot [OF cv r s p ne dist, of w_sol] acc show ?thesis by blast
qed

subsection \<open>The preference loop\<close>

lemma process_constraints_break:
  assumes "instructor_info r = FloatCell"
  shows "process_constraints df vars (pre @ r # rest) st = process_constraints df vars pre st"
  using assms
proof (induction pre arbitrary: st)
  case Nil
  then show ?case by simp
next
  case (Cons a pre)
  then show ?case by (simp split: cell.splits sum.splits)
qed

lemma process_slot_codes_append:
  "process_slot_codes df vars email ct pts (xs @ ys) st =
     (case process_slot_codes df vars email ct pts xs st of
        Inl e \<Rightarrow> Inl e
      | Inr st' \<Rightarrow> process_slot_codes df vars email ct pts ys st')"
  by (induction xs arbitrary: st) (simp_all split: sum.splits)

text \<open>A slot code of fewer than two characters is skipped: the state, including what was
  printed, is what it would be without that code.\<close>

lemma short_code_skipped:
  assumes "length slot_code < 2"
  shows "process_slot_codes df vars email ct pts (pre @ slot_code # rest) st =
         process_slot_codes df vars email ct pts (pre @ rest) st"
  using assms
  by (simp add: process_slot_codes_append process_slot_code_def split: sum.splits)

text \<open>
  Claim C9. The code does not do what the claim says. A slot code of the right length
  and the wrong letters is not skipped: the entry \<^verbatim>\<open>|X1|M1|\<close> raises KeyError at
  \<^verbatim>\<open>time_slot_mapping[day_abbrev]\<close>, nothing catches it, and the code \<^verbatim>\<open>M1\<close> behind it is never
  processed, although the same entry without \<^verbatim>\<open>X1\<close> scores the two variables at Monday
  8:30. A slot code that is too short (\<^verbatim>\<open>|M|M2|\<close>) is skipped, but nothing is printed for it.
\<close>

theorem C9_malformed_code_raises:
  "process_constraints [w_row] w_vars
     [\<lparr>instructor_info = Str ''smith: Pref-1'', slots = Str ''|X1|M1|''\<rparr>] w_state = Inl KeyError \<and>
   process_constraints [w_row] w_vars
     [\<lparr>instructor_info = Str ''smith: Pref-1'', slots = Str ''|M1|''\<rparr>] w_state
     = Inr (w_state\<lparr>total_points := ([(8, 0), (8, 2)], 0)\<rparr>) \<and>
   process_constraints [w_row] w_vars
     [\<lparr>instructor_info = Str ''smith: Pref-1'', slots = Str ''|M|M2|''\<rparr>] w_state
     = Inr (w_state\<lparr>total_points := ([(8, 1), (8, 3)], 0), printed := []\<rparr>)"
  by code_simp

text \<open>
  Claim C10 (as amended). The loop over the preference rows ends at the first row whose
  instructor field is a float: the rows after it, well-formed or not, leave no trace in
  the model, the objective expression or the output.
\<close>

theorem C10_stops_at_float_row:
  assumes "instructor_info r = FloatCell"
  shows "process_constraints df vars (pre @ r # rest) st = process_constraints df vars pre st"
  using assms by (rule process_constraints_break)

text \<open>A Health row after an empty row adds nothing, although the same row alone adds
  two slack variables.\<close>

theorem C10_stops_at_float_row_witness:
  "instructor_info \<lparr>instructor_info = FloatCell, slots = FloatCell\<rparr> = FloatCell \<and>
   process_constraints [w_row] w_vars
     ([] @ \<lparr>instructor_info = FloatCell, slots = FloatCell\<rparr>
        # [\<lparr>instructor_info = Str ''smith: Health'', slots = Str ''|M1|''\<rparr>]) w_state
     = Inr w_state \<and>
   process_constraints [w_row] w_vars
     [\<lparr>instructor_info = Str ''smith: Health'', slots = Str ''|M1|''\<rparr>] w_state
     \<noteq> Inr w_state"
proof -
  have f: "instructor_info \<lparr>instructor_info = FloatCell, slots = FloatCell\<rparr> = FloatCell" by simp
  have n: "process_constraints [w_row] w_vars
     [\<lparr>instructor_info = Str ''smith: Health'', slots = Str ''|M1|''\<rparr>] w_state \<noteq> Inr w_state"
    by code_simp
  from C10_stops_at_float_row [OF f, of "[w_row]" w_vars "[]"
      "[\<lparr>instructor_info = Str ''smith: Health'', slots = Str ''|M1|''\<rparr>]" w_state] f n
  show ?thesis by simp
qed

text \<open>
  The claim as stated, for every instructor field that is not a string, fails: the loop
  breaks only on a float. At a cell of another type (an integer, say) the call
  \<^verbatim>\<open>instructor_info.split\<close> raises AttributeError, so the result is not that of the rows
  before it, which here is the state with the two scored variables of the first row.
\<close>

theorem C10_non_string_counterexample:
  "process_constraints [w_row] w_vars
     ([\<lparr>instructor_info = Str ''smith: Pref-1'', slots = Str ''|M1|''\<rparr>]
        @ \<lparr>instructor_info = OtherCell, slots = Str ''|M2|''\<rparr>
        # [\<lparr>instructor_info = Str ''smith: Health'', slots = Str ''|M1|''\<rparr>]) w_state
     = Inl AttributeError \<and>
   process_constraints [w_row] w_vars
     [\<lparr>instructor_info = Str ''smith: Pref-1'', slots = Str ''|M1|''\<rparr>] w_state
     = Inr (w_state\<lparr>total_points := ([(8, 0), (8, 2)], 0)\<rparr>)"
  by code_simp

subsection \<open>Protected preferences\<close>

lemma eval_add_term:
  "eval_lin sol (add_term e c v) = eval_lin sol e + of_int (c * sol v)"
  by (simp add: eval_lin_def add_term_def)

lemma fold_protected:
  assumes "is_protected ct"
  shows "fold (pref_var_step vars ct pts instr day slot) ts st =
     st\<lparr>p_model := (p_model st)
            \<lparr>var_names := var_names (p_model st) @ map snd (protected_hits vars instr day slot ts),
             constrs := constrs (p_model st) @
               map (\<lambda>(s, h). le_var_constr (fst h) s)
                 (enumerate (length (var_names (p_model st))) (protected_hits vars instr day slot ts))\<rparr>,
         total_points :=
           (fst (total_points st) @
              map (\<lambda>(s, h). (- 2048, s))
                (enumerate (length (var_names (p_model st))) (protected_hits vars instr day slot ts)),
            snd (total_points st))\<rparr>"
proof (induction ts arbitrary: st)
  case Nil
  then show ?case by (simp add: protected_hits_def)
next
  case (Cons t ts)
  obtain course section_id part where t: "t = (course, section_id, part)" by (cases t)
  let ?st1 = "pref_var_step vars ct pts instr day slot t st"
  have f: "fold (pref_var_step vars ct pts instr day slot) (t # ts) st =
           fold (pref_var_step vars ct pts instr day slot) ts ?st1" by simp
  show ?case
  proof (cases "in_variables (x_name course instr section_id part day slot) vars")
    case True
    then have st1: "?st1 = st\<lparr>p_model := (p_model st)
            \<lparr>var_names := var_names (p_model st) @ [slack_name course instr section_id part day slot],
             constrs := constrs (p_model st) @
               [le_var_constr (lookup vars (x_name course instr section_id part day slot))
                  (length (var_names (p_model st)))]\<rparr>,
         total_points := (fst (total_points st) @ [(- 2048, length (var_names (p_model st)))],
            snd (total_points st))\<rparr>"
      using assms
      by (simp add: t pref_var_step_def add_slack_def addVar_def addConstr_def add_term_def)
    have h: "protected_hits vars instr day slot (t # ts) =
       (lookup vars (x_name course instr section_id part day slot),
        slack_name course instr section_id part day slot) # protected_hits vars instr day slot ts"
      using True by (simp add: t protected_hits_def)
    show ?thesis
      unfolding f Cons.IH [of ?st1] h by (simp add: st1)
  next
    case False
    then have st1: "?st1 = st" by (simp add: t pref_var_step_def)
    have h: "protected_hits vars instr day slot (t # ts) = protected_hits vars instr day slot ts"
      using False by (simp add: t protected_hits_def)
    show ?thesis
      unfolding f Cons.IH [of ?st1] h by (simp add: st1)
  qed
qed

lemma eval_append_slack:
  fixes sol :: "var \<Rightarrow> int"
  shows "eval_lin sol (ts @ map (\<lambda>(s, h). (- 2048, s)) xs, k) =
     eval_lin sol (ts, k) - 2048 * of_int (sum_list (map (\<lambda>(s, h). sol s) xs))"
  by (induction xs arbitrary: ts) (auto simp: eval_lin_def algebra_simps)

lemma sat_le_var_constr: "sat sol (le_var_constr x y) \<longleftrightarrow> sol x \<le> sol y"
  by (simp add: sat_def le_var_constr_def var_expr_def eval_lin_def)

text \<open>One protected slot code, in terms of the list of hits of the loop.\<close>

lemma protected_slack_step:
  assumes prot: "is_protected constraint_type"
    and len: "2 \<le> length slot_code"
    and day: "time_slot_mapping (slot_code ! 0) = Some day_full"
    and slot: "time_slot_index (slot_code ! 1) = Some time_slot_full"
    and instr: "filter (\<lambda>r. Email r = email) df = instructor_row # others"
  shows "\<exists>st'. process_slot_code df vars email constraint_type points slot_code st = Inr st' \<and>
     (let hits = protected_hits vars (Instructor instructor_row) day_full time_slot_full
                   (pref_targets df (Instructor instructor_row));
          slack = enumerate (length (var_names (p_model st))) hits
      in var_names (p_model st') = var_names (p_model st) @ map snd hits \<and>
         constrs (p_model st') =
           constrs (p_model st) @ map (\<lambda>(s, h). le_var_constr (fst h) s) slack \<and>
         total_points st' =
           (fst (total_points st) @ map (\<lambda>(s, h). (- 2048, s)) slack, snd (total_points st)) \<and>
         printed st' = printed st \<and>
         (\<forall>sol. accepted (p_model st') sol \<longrightarrow>
                list_all (\<lambda>(s, h). sol (fst h) = 1 \<longrightarrow> sol s = 1) slack) \<and>
         (\<forall>sol. eval_lin sol (total_points st') =
                eval_lin sol (total_points st)
                  - 2048 * of_int (sum_list (map (\<lambda>(s, h). sol s) slack))))"
proof -
  let ?instr = "Instructor instructor_row"
  let ?hits = "protected_hits vars ?instr day_full time_slot_full (pref_targets df ?instr)"
  let ?n = "length (var_names (p_model st))"
  let ?slack = "enumerate ?n ?hits"
  let ?st' = "fold (pref_var_step vars constraint_type points ?instr day_full time_slot_full)
                (pref_targets df ?instr) st"
  have run: "process_slot_code df vars email constraint_type points slot_code st = Inr ?st'"
    using len day slot instr by (simp add: process_slot_code_def)
  note fp = fold_protected [OF prot, of vars points ?instr day_full time_slot_full
      "pref_targets df ?instr" st]
  have vn: "var_names (p_model ?st') = var_names (p_model st) @ map snd ?hits"
    by (simp add: fp)
  have cs: "constrs (p_model ?st') =
      constrs (p_model st) @ map (\<lambda>(s, h). le_var_constr (fst h) s) ?slack"
    by (simp add: fp)
  have tp: "total_points ?st' =
      (fst (total_points st) @ map (\<lambda>(s, h). (- 2048, s)) ?slack, snd (total_points st))"
    by (simp add: fp)
  have pr: "printed ?st' = printed st"
    by (simp add: fp)
  have forced: "list_all (\<lambda>(s, h). sol (fst h) = 1 \<longrightarrow> sol s = 1) ?slack"
    if acc: "accepted (p_model ?st') sol" for sol
    unfolding list_all_iff
  proof
    fix p assume p: "p \<in> set ?slack"
    obtain s h where sh: "p = (s, h)" by (cases p)
    from p sh have s_lt: "s < ?n + length ?hits"
      by (auto simp: in_set_enumerate_eq)
    from p sh have "le_var_constr (fst h) s \<in> set (constrs (p_model ?st'))"
      unfolding cs by force
    with acc have le: "sol (fst h) \<le> sol s"
      by (auto simp: accepted_def list_all_iff sat_le_var_constr)
    from acc s_lt have "binary sol s"
      by (auto simp: accepted_def list_all_iff vn)
    with le show "case p of (s, h) \<Rightarrow> sol (fst h) = 1 \<longrightarrow> sol s = 1"
      by (auto simp: sh binary_def)
  qed
  have obj: "eval_lin sol (total_points ?st') =
      eval_lin sol (total_points st) - 2048 * of_int (sum_list (map (\<lambda>(s, h). sol s) ?slack))"
    for sol
    unfolding tp eval_append_slack by simp
  from run vn cs tp pr forced obj show ?thesis
    unfolding Let_def by blast
qed


text \<open>The hits written out: the loop runs over the rows of the instructor in table order
  (a course once for every row that names it), the sections \<open>1..N\<close> where \<open>N\<close> is the section
  count of the first row of that instructor and course, and the two parts; it keeps the
  assignment variables that exist.\<close>

lemma num_sections_of_row:
  assumes "r \<in> set df" "Instructor r = instr"
  shows "num_sections_of df instr (Course r) =
         Sections (hd (filter (\<lambda>q. Instructor q = instr \<and> Course q = Course r) df))"
proof -
  have f: "filter (\<lambda>q. Instructor q = instr \<and> Course q = Course r) (filter (\<lambda>q. Course q = Course r) df)
        = filter (\<lambda>q. Instructor q = instr \<and> Course q = Course r) df"
    by (induction df) auto
  from assms have "r \<in> set (filter (\<lambda>q. Instructor q = instr \<and> Course q = Course r) df)" by simp
  then obtain a as where "filter (\<lambda>q. Instructor q = instr \<and> Course q = Course r) df = a # as"
    by (cases "filter (\<lambda>q. Instructor q = instr \<and> Course q = Course r) df") auto
  then show ?thesis unfolding num_sections_of_def f by simp
qed

lemma protected_hits_rows:
  "protected_hits vars instr day slot (pref_targets df instr) =
     concat (map (\<lambda>r.
       concat (map (\<lambda>section_id.
         concat (map (\<lambda>part.
           if in_variables (x_name (Course r) instr section_id part day slot) vars
           then [(lookup vars (x_name (Course r) instr section_id part day slot),
                  slack_name (Course r) instr section_id part day slot)]
           else []) [1, 2]))
         [1 .. Sections (hd (filter (\<lambda>q. Instructor q = instr \<and> Course q = Course r) df))]))
       (filter (\<lambda>r. Instructor r = instr) df))"
proof -
  let ?f = "\<lambda>(course, section_id, part).
            (lookup vars (x_name course instr section_id part day slot),
             slack_name course instr section_id part day slot)"
  let ?P = "\<lambda>(course, section_id, part).
            in_variables (x_name course instr section_id part day slot) vars"
  let ?cell = "\<lambda>c section_id part.
           if in_variables (x_name c instr section_id part day slot) vars
           then [(lookup vars (x_name c instr section_id part day slot),
                  slack_name c instr section_id part day slot)]
           else []"
  have sec: "map ?f (filter ?P (map (\<lambda>part. (c, s, part)) parts)) =
             concat (map (?cell c s) [1, 2])" for c s
    by (simp add: parts_def)
  have course: "map ?f (filter ?P (concat (map (\<lambda>s. map (\<lambda>part. (c, s, part)) parts) ss))) =
             concat (map (\<lambda>s. concat (map (?cell c s) [1, 2])) ss)" for c ss
  proof (induction ss)
    case Nil
    show ?case by simp
  next
    case (Cons a ss)
    let ?h = "\<lambda>s. map (\<lambda>part. (c, s, part)) parts"
    have "map ?f (filter ?P (concat (map ?h (a # ss)))) =
          map ?f (filter ?P (?h a)) @ map ?f (filter ?P (concat (map ?h ss)))" by simp
    also have "\<dots> = concat (map (?cell c a) [1, 2]) @
          concat (map (\<lambda>s. concat (map (?cell c s) [1, 2])) ss)"
      by (simp only: sec Cons.IH)
    also have "\<dots> = concat (map (\<lambda>s. concat (map (?cell c s) [1, 2])) (a # ss))" by simp
    finally show ?case .
  qed
  have rows: "map ?f (filter ?P (concat (map (\<lambda>c. concat (map (\<lambda>s. map (\<lambda>part. (c, s, part)) parts) (g c))) cs))) =
             concat (map (\<lambda>c. concat (map (\<lambda>s. concat (map (?cell c s) [1, 2])) (g c))) cs)"
    for cs and g :: "string \<Rightarrow> int list"
  proof (induction cs)
    case Nil
    show ?case by simp
  next
    case (Cons a cs)
    let ?h = "\<lambda>c. concat (map (\<lambda>s. map (\<lambda>part. (c, s, part)) parts) (g c))"
    have "map ?f (filter ?P (concat (map ?h (a # cs)))) =
          map ?f (filter ?P (?h a)) @ map ?f (filter ?P (concat (map ?h cs)))" by simp
    also have "\<dots> = concat (map (\<lambda>s. concat (map (?cell a s) [1, 2])) (g a)) @
          concat (map (\<lambda>c. concat (map (\<lambda>s. concat (map (?cell c s) [1, 2])) (g c))) cs)"
      by (simp only: course Cons.IH)
    also have "\<dots> = concat (map (\<lambda>c. concat (map (\<lambda>s. concat (map (?cell c s) [1, 2])) (g c))) (a # cs))"
      by simp
    finally show ?case .
  qed
  have "protected_hits vars instr day slot (pref_targets df instr) =
        concat (map (\<lambda>c. concat (map (\<lambda>s. concat (map (?cell c s) [1, 2]))
                  (range1 (num_sections_of df instr c))))
          (map Course (filter (\<lambda>r. Instructor r = instr) df)))"
    unfolding protected_hits_def pref_targets_def by (rule rows)
  also have "\<dots> = concat (map (\<lambda>r. concat (map (\<lambda>s. concat (map (?cell (Course r) s) [1, 2]))
                  (range1 (num_sections_of df instr (Course r)))))
          (filter (\<lambda>r. Instructor r = instr) df))"
    by (simp add: comp_def)
  also have "\<dots> = concat (map (\<lambda>r. concat (map (\<lambda>s. concat (map (?cell (Course r) s) [1, 2]))
       [1 .. Sections (hd (filter (\<lambda>q. Instructor q = instr \<and> Course q = Course r) df))]))
          (filter (\<lambda>r. Instructor r = instr) df))"
    by (intro arg_cong [where f = concat] map_cong refl)
      (simp add: num_sections_of_row range1_def)
  finally show ?thesis .
qed

text \<open>
  Claim C3 (as amended). Take one Health/Religion slot code that names a day and a slot,
  and the instructor that its e-mail resolves to (the first row with that e-mail). For
  every row of that instructor, every section index \<open>1..N\<close> (with \<open>N\<close> the section count of
  the first row of that instructor and course) and both parts, if the assignment variable
  at that (day, slot) exists, the loop creates a new binary slack variable, adds the
  constraint \<^verbatim>\<open>X <= slack\<close> and adds \<^verbatim>\<open>-2048 * slack\<close> to the objective expression, and it does
  nothing else. In an accepted solution a slack variable whose assignment variable is 1
  is 1, and the objective expression drops by 2048 for every slack variable at 1: one
  unit per (slot-code occurrence, row, section, part), not per distinct (section, part,
  day, slot).
\<close>

theorem C3_protected_slack:
  assumes prot: "is_protected constraint_type"
    and len: "2 \<le> length slot_code"
    and day: "time_slot_mapping (slot_code ! 0) = Some day_full"
    and slot: "time_slot_index (slot_code ! 1) = Some time_slot_full"
    and instr: "filter (\<lambda>r. Email r = email) df = instructor_row # others"
  shows "\<exists>st'. process_slot_code df vars email constraint_type points slot_code st = Inr st' \<and>
     (let instr = Instructor instructor_row;
          hits = concat (map (\<lambda>r.
                   concat (map (\<lambda>section_id.
                     concat (map (\<lambda>part.
                       if in_variables (x_name (Course r) instr section_id part day_full time_slot_full) vars
                       then [(lookup vars (x_name (Course r) instr section_id part day_full time_slot_full),
                              slack_name (Course r) instr section_id part day_full time_slot_full)]
                       else []) [1, 2]))
                     [1 .. Sections (hd (filter (\<lambda>q. Instructor q = instr \<and> Course q = Course r) df))]))
                   (filter (\<lambda>r. Instructor r = instr) df));
          slack = enumerate (length (var_names (p_model st))) hits
      in var_names (p_model st') = var_names (p_model st) @ map snd hits \<and>
         constrs (p_model st') =
           constrs (p_model st) @ map (\<lambda>(s, h). le_var_constr (fst h) s) slack \<and>
         total_points st' =
           (fst (total_points st) @ map (\<lambda>(s, h). (- 2048, s)) slack, snd (total_points st)) \<and>
         printed st' = printed st \<and>
         (\<forall>sol. accepted (p_model st') sol \<longrightarrow>
                list_all (\<lambda>(s, h). sol (fst h) = 1 \<longrightarrow> sol s = 1) slack) \<and>
         (\<forall>sol. eval_lin sol (total_points st') =
                eval_lin sol (total_points st)
                  - 2048 * of_int (sum_list (map (\<lambda>(s, h). sol s) slack))))"
proof -
  note step = protected_slack_step [OF prot len day slot instr, of vars points st,
      unfolded protected_hits_rows Let_def]
  show ?thesis
    unfolding Let_def by (rule step)
qed

text \<open>The theorem at a Health entry \<^verbatim>\<open>|M1|\<close> of an instructor with one section: the two
  assignment variables at Monday 8:30 (parts 1 and 2) get the slack variables 4 and 5.\<close>

theorem C3_protected_slack_witness:
  "\<exists>st'. process_slot_code [w_row] w_vars ''smith'' ''Health'' (- 2048) ''M1'' w_state = Inr st' \<and>
     var_names (p_model st') = var_names (p_model w_state) @
       [''Slack_CS100_Smith_1_1_Monday_8:30-10:00 AM'', ''Slack_CS100_Smith_1_2_Monday_8:30-10:00 AM''] \<and>
     constrs (p_model st') = constrs (p_model w_state) @ [le_var_constr 0 4, le_var_constr 2 5] \<and>
     total_points st' = ([(- 2048, 4), (- 2048, 5)], 0)"
proof -
  have prot: "is_protected ''Health''" by code_simp
  have len: "2 \<le> length ''M1''" by simp
  have day: "time_slot_mapping (''M1'' ! 0) = Some ''Monday''" by code_simp
  have slot: "time_slot_index (''M1'' ! 1) = Some ''8:30-10:00 AM''" by code_simp
  have instr: "filter (\<lambda>r. Email r = ''smith'') [w_row] = w_row # []" by code_simp
  have hits: "concat (map (\<lambda>r.
                   concat (map (\<lambda>section_id.
                     concat (map (\<lambda>part.
                       if in_variables (x_name (Course r) (Instructor w_row) section_id part ''Monday'' ''8:30-10:00 AM'') w_vars
                       then [(lookup w_vars (x_name (Course r) (Instructor w_row) section_id part ''Monday'' ''8:30-10:00 AM''),
                              slack_name (Course r) (Instructor w_row) section_id part ''Monday'' ''8:30-10:00 AM'')]
                       else []) [1, 2]))
                     [1 .. Sections (hd (filter (\<lambda>q. Instructor q = Instructor w_row \<and> Course q = Course r) [w_row]))]))
                   (filter (\<lambda>r. Instructor r = Instructor w_row) [w_row])) =
              [(0, ''Slack_CS100_Smith_1_1_Monday_8:30-10:00 AM''),
               (2, ''Slack_CS100_Smith_1_2_Monday_8:30-10:00 AM'')]"
    by code_simp
  have n: "length (var_names (p_model w_state)) = 4" by code_simp
  have tp: "total_points w_state = ([], 0)" by (simp add: w_state_def)
  from C3_protected_slack [OF prot len day slot instr, of w_vars "- 2048" w_state]
  show ?thesis
    unfolding Let_def hits n tp by auto
qed

text \<open>
  The claim as stated fails when two protected entries of an instructor name the same slot
  (here a Health and a Religion entry, both \<^verbatim>\<open>|M1|\<close>): the assignment variable 0 then has
  two slack variables (4 and 6). With variable 0 at 1 and the other blocked variable 2 at
  0 there is one violated (section, part, day, slot), yet no accepted solution has the
  objective expression at \<open>- 2048\<close>: it is at most \<open>- 4096\<close>.
\<close>

lemma c3_state:
  "process_constraints [w_row] w_vars c3_rows w_state =
     Inr \<lparr>p_model = \<lparr>var_names = var_names (p_model w_state) @
              [''Slack_CS100_Smith_1_1_Monday_8:30-10:00 AM'',
               ''Slack_CS100_Smith_1_2_Monday_8:30-10:00 AM'',
               ''Slack_CS100_Smith_1_1_Monday_8:30-10:00 AM'',
               ''Slack_CS100_Smith_1_2_Monday_8:30-10:00 AM''],
            constrs = [le_var_constr 0 4, le_var_constr 2 5, le_var_constr 0 6, le_var_constr 2 7],
            objective = ([], 0)\<rparr>,
          total_points = ([(- 2048, 4), (- 2048, 5), (- 2048, 6), (- 2048, 7)], 0),
          printed = []\<rparr>"
  by code_simp

theorem C3_one_unit_counterexample:
  "\<not> (\<exists>sol st'. process_constraints [w_row] w_vars c3_rows w_state = Inr st' \<and>
         accepted (p_model st') sol \<and> sol 0 = 1 \<and> sol 2 = 0 \<and>
         eval_lin sol (total_points st') = - 2048)"
proof
  assume "\<exists>sol st'. process_constraints [w_row] w_vars c3_rows w_state = Inr st' \<and>
         accepted (p_model st') sol \<and> sol 0 = 1 \<and> sol 2 = 0 \<and>
         eval_lin sol (total_points st') = - 2048"
  then obtain sol st' where run: "process_constraints [w_row] w_vars c3_rows w_state = Inr st'"
    and acc: "accepted (p_model st') sol" and x: "sol 0 = 1"
    and obj: "eval_lin sol (total_points st') = - 2048" by blast
  have n: "length (var_names (p_model w_state)) = 4" by code_simp
  have u: "[0..<8] = [0, 1, 2, 3, 4, 5, 6, 7]" by code_simp
  from run have tp: "total_points st' = ([(- 2048, 4), (- 2048, 5), (- 2048, 6), (- 2048, 7)], 0)"
    and cs: "constrs (p_model st') =
               [le_var_constr 0 4, le_var_constr 2 5, le_var_constr 0 6, le_var_constr 2 7]"
    and vn: "length (var_names (p_model st')) = 8"
    unfolding c3_state by (auto simp: n)
  from acc have c: "sol 0 \<le> sol 4" "sol 0 \<le> sol 6"
    and b: "binary sol 5" "binary sol 7" "binary sol 4" "binary sol 6"
    by (simp_all add: accepted_def cs vn sat_le_var_constr u)
  from obj have "(of_int (- 2048 * sol 4 - 2048 * sol 5 - 2048 * sol 6 - 2048 * sol 7) :: rat)
      = of_int (- 2048)"
    by (simp add: eval_lin_def tp)
  then have "- 2048 * sol 4 - 2048 * sol 5 - 2048 * sol 6 - 2048 * sol 7 = - 2048"
    by (simp only: of_int_eq_iff)
  with c x b show False by (auto simp: binary_def)
qed

subsection \<open>Section numbering in the capacity map and the type map\<close>

text \<open>
  Claim C7. The capacity map numbers the offerings of a course/instructor pair in the
  order (course, instructor, capacity); the type map sorts by (course, instructor) only and
  so keeps the sheet's order inside a pair. With the larger offering first in the sheet,
  section 1 has the capacity of the second row (30) and the type of the first row
  (Jersey City), and no row has both: the two maps do not refer to the same offering.
\<close>

theorem C7_maps_disagree:
  "map_of (create_section_capacity_map c7_df) (''CS100'', ''Smith'', 1) = Some 30 \<and>
   map_of (create_section_type_map True c7_df) (''CS100'', ''Smith'', 1) = Some ''Jersey City'' \<and>
   filter (\<lambda>r. o_capacity r = 30 \<and> o_section_type r = ''Jersey City'') c7_df = []"
  by code_simp

subsection \<open>The Monday 4:00-5:30 PM restriction\<close>

text \<open>
  Claim C4. Section 1 of CS301 has capacity 30: course number above 199 and capacity
  below 35, so it satisfies both conditions. Section 2 of the same row has capacity 50
  and fails. When the loop reaches \<^verbatim>\<open>sc = 2\<close> it zero-forces the Monday 4:00-5:30 PM
  variables of every section of the row, those of section 1 included (variables 0 and 1).
\<close>

theorem C4_allowed_section_zero_forced:
  "map_of (create_section_capacity_map c4_offerings) (''CS301'', ''Smith'', 1) = Some 30 \<and>
   monday_condition (int_of_digits (Course_Number c4_row))
     (map_of (create_section_capacity_map c4_offerings) (Course c4_row, Instructor c4_row, 1)) \<and>
   lookup c4_vars (x_name ''CS301'' ''Smith'' 1 1 ''Monday'' ''4:00-5:30 PM'') = 0 \<and>
   restricted_slot_constrs [c4_row] c4_vars (create_section_capacity_map c4_offerings) =
     [zero_constr 0 ''restricted_slot_CS301_Smith_1_1_Monday_4:00-5:30 PM'',
      zero_constr 1 ''restricted_slot_CS301_Smith_1_2_Monday_4:00-5:30 PM'',
      zero_constr 2 ''restricted_slot_CS301_Smith_2_1_Monday_4:00-5:30 PM'',
      zero_constr 3 ''restricted_slot_CS301_Smith_2_2_Monday_4:00-5:30 PM'']"
  by code_simp

subsection \<open>Variable names and how the code takes them apart\<close>

lemma split_char_not_Nil: "split_char c s \<noteq> []"
  by (induction s) (auto simp: neq_Nil_conv elim: cons_first.elims)

lemma split_char_no_sep: "c \<notin> set s \<Longrightarrow> split_char c s = [s]"
  by (induction s) auto

lemma split_char_append: "c \<notin> set a \<Longrightarrow> split_char c (a @ c # rest) = a # split_char c rest"
proof (induction a)
  case Nil
  then show ?case by simp
next
  case (Cons x a)
  then show ?case by auto
qed

lemma of_char_digit_char: "d < 10 \<Longrightarrow> (of_char (digit_char d) :: nat) = 48 + d"
  by (simp add: digit_char_def)

lemma is_digit_digit_char: "d < 10 \<Longrightarrow> is_digit (digit_char d)"
  by (simp add: is_digit_def of_char_digit_char)

lemma str_nat_digits: "list_all is_digit (str_nat n)"
proof (induction n rule: str_nat.induct)
  case (1 n)
  show ?case
  proof (cases "n < 10")
    case True
    then show ?thesis by (subst str_nat.simps) (simp add: is_digit_digit_char)
  next
    case False
    with 1 show ?thesis by (subst str_nat.simps) (simp add: is_digit_digit_char)
  qed
qed

lemma str_nat_not_Nil: "str_nat n \<noteq> []"
  by (subst str_nat.simps) simp

lemma int_of_digits_snoc: "int_of_digits (s @ [c]) = 10 * int_of_digits s + (int (of_char c) - 48)"
  by (simp add: int_of_digits_def)

lemma int_of_digits_str_nat: "int_of_digits (str_nat n) = int n"
proof (induction n rule: str_nat.induct)
  case (1 n)
  show ?case
  proof (cases "n < 10")
    case True
    then show ?thesis
      by (subst str_nat.simps) (simp add: int_of_digits_def of_char_digit_char)
  next
    case False
    with 1 have "int_of_digits (str_nat (n div 10)) = int (n div 10)" by simp
    with False show ?thesis
      by (subst str_nat.simps) (simp add: int_of_digits_snoc of_char_digit_char zdiv_int zmod_int)
  qed
qed

lemma str_nat_inj: "str_nat a = str_nat b \<Longrightarrow> a = b"
  by (metis int_of_digits_str_nat of_nat_eq_iff)

lemma is_digit_minus: "\<not> is_digit CHR ''-''"
  by (simp add: is_digit_def)

lemma hd_str_nat_digit: "is_digit (hd (str_nat n))"
  using str_nat_digits [of n] str_nat_not_Nil [of n]
  by (cases "str_nat n") (auto)

lemma str_int_inj: "str_int a = str_int b \<Longrightarrow> a = b"
proof -
  assume e: "str_int a = str_int b"
  have neg: "str_nat x \<noteq> CHR ''-'' # s" for x s
    using hd_str_nat_digit [of x] is_digit_minus by (metis list.sel(1))
  show ?thesis
  proof (cases "a < 0"; cases "b < 0")
    assume "a < 0" "b < 0"
    with e have "nat (- a) = nat (- b)" by (auto simp: str_int_def dest: str_nat_inj)
    with \<open>a < 0\<close> \<open>b < 0\<close> show ?thesis by simp
  next
    assume "a < 0" "\<not> b < 0"
    with e neg show ?thesis by (auto simp: str_int_def) (metis)
  next
    assume "\<not> a < 0" "b < 0"
    with e neg show ?thesis by (auto simp: str_int_def)
  next
    assume "\<not> a < 0" "\<not> b < 0"
    with e have "nat a = nat b" by (auto simp: str_int_def dest: str_nat_inj)
    with \<open>\<not> a < 0\<close> \<open>\<not> b < 0\<close> show ?thesis by simp
  qed
qed

lemma is_digit_not_underscore: "is_digit c \<Longrightarrow> c \<noteq> CHR ''_''"
  by (auto simp: is_digit_def)

lemma is_digit_not_space: "is_digit c \<Longrightarrow> \<not> is_space c"
  by (auto simp: is_digit_def is_space_def)

lemma underscore_notin_str_int: "CHR ''_'' \<notin> set (str_int i)"
  using str_nat_digits is_digit_not_underscore
  by (auto simp: str_int_def list_all_iff)

lemma strip_id: "s \<noteq> [] \<Longrightarrow> \<not> is_space (hd s) \<Longrightarrow> \<not> is_space (last s) \<Longrightarrow> strip s = s"
proof -
  assume a: "s \<noteq> []" "\<not> is_space (hd s)" "\<not> is_space (last s)"
  then have 1: "dropWhile is_space s = s" by (cases s) auto
  from a have "rev s \<noteq> []" "\<not> is_space (hd (rev s))" by (auto simp: hd_rev)
  then have 2: "dropWhile is_space (rev s) = rev s" by (cases "rev s") auto
  show ?thesis by (simp add: strip_def 1 2)
qed

lemma parse_int_str_int: "0 \<le> i \<Longrightarrow> parse_int (str_int i) = Some i"
proof -
  assume i: "0 \<le> i"
  let ?s = "str_nat (nat i)"
  have d: "list_all is_digit ?s" by (rule str_nat_digits)
  have ne: "?s \<noteq> []" by (rule str_nat_not_Nil)
  from d ne have "\<not> is_space (hd ?s)" "\<not> is_space (last ?s)"
    by (auto simp: list_all_iff intro!: is_digit_not_space)
  with ne have st: "strip ?s = ?s" by (rule strip_id)
  obtain c cs where cs: "?s = c # cs" using ne by (cases ?s) auto
  from d cs have "is_digit c" by simp
  then have "c \<noteq> CHR ''-''" "c \<noteq> CHR ''+''" by (auto simp: is_digit_def)
  from st cs have st': "strip (c # cs) = c # cs" by simp
  from d cs int_of_digits_str_nat [of "nat i"] i \<open>c \<noteq> CHR ''-''\<close> \<open>c \<noteq> CHR ''+''\<close>
  show ?thesis
    by (simp add: parse_int_def str_int_def st')
qed

lemma name_parts_x_name:
  assumes "CHR ''_'' \<notin> set course" "CHR ''_'' \<notin> set instructor" "CHR ''_'' \<notin> set day"
    "CHR ''_'' \<notin> set slot"
  shows "name_parts (x_name course instructor section_id part day slot) =
         [''X'', course, instructor, str_int section_id, str_int part, day, slot]"
proof -
  have x: "CHR ''_'' \<notin> set ''X''" by simp
  have "x_name course instructor section_id part day slot =
        ''X'' @ CHR ''_'' # (course @ CHR ''_'' # (instructor @ CHR ''_'' # (str_int section_id @
          CHR ''_'' # (str_int part @ CHR ''_'' # (day @ CHR ''_'' # slot)))))"
    by (simp add: x_name_def)
  then show ?thesis
    unfolding name_parts_def
    by (simp only: split_char_append [OF x] split_char_append [OF assms(1)]
        split_char_append [OF assms(2)] split_char_append [OF assms(3)]
        split_char_append [OF underscore_notin_str_int] split_char_no_sep [OF assms(4)])
qed


lemma name_parts_x_name_wf:
  assumes "names_wf df time_slots days" "r \<in> set df" "day \<in> set days" "slot \<in> set time_slots"
  shows "name_parts (x_name (Course r) (Instructor r) section_id part day slot) =
         [''X'', Course r, Instructor r, str_int section_id, str_int part, day, slot]"
  using assms by (intro name_parts_x_name) (auto simp: names_wf_def list_all_iff no_underscore_def)

lemma is_jc_var_x_name:
  assumes "names_wf df time_slots days" "r \<in> set df" "day \<in> set days" "slot \<in> set time_slots"
    and "0 \<le> section_id"
  shows "is_jc_var tm (x_name (Course r) (Instructor r) section_id part day slot) =
         is_jersey_city (get_type tm (Course r, Instructor r, section_id))"
  by (simp add: is_jc_var_def name_parts_x_name_wf [OF assms(1-4)] parse_int_str_int [OF assms(5)])

lemma x_name_inj_wf:
  assumes wf: "names_wf df time_slots days"
    and r: "r \<in> set df" "day \<in> set days" "slot \<in> set time_slots"
    and r': "r' \<in> set df" "day' \<in> set days" "slot' \<in> set time_slots"
    and e: "x_name (Course r) (Instructor r) s p day slot =
            x_name (Course r') (Instructor r') s' p' day' slot'"
  shows "Course r = Course r' \<and> Instructor r = Instructor r' \<and> s = s' \<and> p = p'
         \<and> day = day' \<and> slot = slot'"
proof -
  from e have "name_parts (x_name (Course r) (Instructor r) s p day slot) =
               name_parts (x_name (Course r') (Instructor r') s' p' day' slot')" by simp
  then show ?thesis
    unfolding name_parts_x_name_wf [OF wf r] name_parts_x_name_wf [OF wf r']
    by (auto dest: str_int_inj)
qed

subsection \<open>The dictionary that \<^verbatim>\<open>build_model\<close> fills\<close>

lemma new_variable_keys:
  assumes "new_variable name (m, vars) = (m', vars')" "distinct (map fst vars)"
  shows "distinct (map fst vars') \<and> set (map fst vars') = insert name (set (map fst vars))"
proof -
  from assms(1) have v: "vars' = AList.update name (length (var_names m)) vars"
    by (auto simp: new_variable_def addVar_def)
  have "fst ` set vars' = insert name (fst ` set vars)"
    unfolding v by (simp add: dom_update)
  with assms(2) show ?thesis by (simp add: v distinct_update)
qed

lemma fold_new_variable_keys:
  assumes "fold new_variable names (m, vars) = (m', vars')" "distinct (map fst vars)"
  shows "distinct (map fst vars') \<and> set (map fst vars') = set names \<union> set (map fst vars)"
  using assms
proof (induction names arbitrary: m vars)
  case Nil
  then show ?case by simp
next
  case (Cons a names)
  obtain m1 vars1 where s: "new_variable a (m, vars) = (m1, vars1)"
    by (cases "new_variable a (m, vars)")
  from new_variable_keys [OF s Cons.prems(2)] Cons.IH [of m1 vars1] Cons.prems(1) s
  show ?case by auto
qed

text \<open>What \<open>create_variables\<close> guarantees: the keys are the generated names, each once; every
  key has its own variable; the model gained the variables and nothing else.\<close>

lemma create_variables_dict:
  assumes cv: "create_variables m0 df time_slots days = (m1, vars)"
  shows "distinct (map fst vars)"
    and "set (map fst vars) = set (concat (map (row_var_names time_slots days) df))"
    and "distinct (map snd vars)"
    and "\<And>n v. (n, v) \<in> set vars \<Longrightarrow> lookup vars n = v \<and> in_variables n vars \<and> v < length (var_names m1)"
proof -
  from cv have f: "fold new_variable (concat (map (row_var_names time_slots days) df)) (m0, []) = (m1, vars)"
    by (simp add: create_variables_def)
  from fold_new_variable_keys [OF f] show d: "distinct (map fst vars)"
    and "set (map fst vars) = set (concat (map (row_var_names time_slots days) df))" by auto
  from create_variables_ok [OF cv] have ok: "vars_ok m1 vars" by simp
  have mo: "map_of vars n = Some v" if "(n, v) \<in> set vars" for n v
    using that d by simp
  show "distinct (map snd vars)"
  proof (subst distinct_map, intro conjI inj_onI)
    show "distinct vars" using d by (simp add: distinct_map)
  next
    fix a b assume a: "a \<in> set vars" and b: "b \<in> set vars" and e: "snd a = snd b"
    from a mo [of "fst a" "snd a"] have "map_of vars (fst a) = Some (snd a)" by simp
    moreover from b mo [of "fst b" "snd b"] have "map_of vars (fst b) = Some (snd b)" by simp
    ultimately have "fst a = fst b" using e ok by (auto simp: vars_ok_def)
    with e show "a = b" by (simp add: prod_eq_iff)
  qed
  show "lookup vars n = v \<and> in_variables n vars \<and> v < length (var_names m1)"
    if "(n, v) \<in> set vars" for n v
    using mo [OF that] ok by (auto simp: lookup_def in_variables_def vars_ok_def)
qed

subsection \<open>The evening cap\<close>

lemma day_slot_pairs_set: "set (day_slot_pairs days time_slots) = set days \<times> set time_slots"
  by (auto simp: day_slot_pairs_def)

lemma row_var_names_set:
  "set (row_var_names time_slots days r) =
     {x_name (Course r) (Instructor r) s p d sl | s p d sl.
        s \<in> set (range1 (Sections r)) \<and> p \<in> set parts \<and> d \<in> set days \<and> sl \<in> set time_slots}"
proof (cases "Sections r = 0")
  case True
  then show ?thesis by (simp add: row_var_names_def range1_def)
next
  case False
  then show ?thesis
    by (auto simp: row_var_names_def day_slot_pairs_set)
qed

lemma constrs_add_balance:
  "constrs (fst (add_balance_constraints m df vars pre tm)) =
     constrs m @ block_constrs vars pre @ banned_constrs vars @ balance_constrs df vars tm
       @ evening_constrs df vars tm"
  by (simp add: add_balance_constraints_def addConstrs_def)

lemma var_names_add_balance:
  "var_names (fst (add_balance_constraints m df vars pre tm)) = var_names m"
  by (simp add: add_balance_constraints_def addConstrs_def)

lemma evening_vars_set:
  assumes cv: "create_variables m0 df time_slots days = (m1, vars)"
    and wf: "names_wf df time_slots days"
  shows "set (evening_vars vars tm slot) =
     {lookup vars (x_name (Course r) (Instructor r) s p d slot) | r s p d.
        r \<in> set df \<and> s \<in> set (range1 (Sections r)) \<and> p \<in> set parts \<and> d \<in> set days
        \<and> slot \<in> set time_slots \<and> \<not> is_jersey_city (get_type tm (Course r, Instructor r, s))}"
    (is "?L = ?R")
proof -
  note dict = create_variables_dict [OF cv]
  have keys: "set (map fst vars) =
      {x_name (Course r) (Instructor r) s p d sl | r s p d sl.
         r \<in> set df \<and> s \<in> set (range1 (Sections r)) \<and> p \<in> set parts \<and> d \<in> set days
         \<and> sl \<in> set time_slots}"
    unfolding dict(2) by (auto simp: row_var_names_set) blast+
  have cond: "(length (name_parts n) \<ge> 7 \<and> name_parts n ! 6 = slot \<and> \<not> is_jc_var tm n)
      \<longleftrightarrow> (sl = slot \<and> \<not> is_jersey_city (get_type tm (Course r, Instructor r, s)))"
    if "n = x_name (Course r) (Instructor r) s p d sl" "r \<in> set df"
      "s \<in> set (range1 (Sections r))" "d \<in> set days" "sl \<in> set time_slots" for n r s p d sl
  proof -
    from that(3) have "0 \<le> s" by (auto simp: range1_def)
    with that show ?thesis
      by (auto simp: name_parts_x_name_wf [OF wf] is_jc_var_x_name [OF wf])
  qed
  show ?thesis
  proof (intro set_eqI iffI)
    fix v assume "v \<in> ?L"
    then obtain n where nv: "(n, v) \<in> set vars"
      and c: "length (name_parts n) \<ge> 7 \<and> name_parts n ! 6 = slot \<and> \<not> is_jc_var tm n"
      by (auto simp: evening_vars_def)
    from nv have "n \<in> set (map fst vars)" by force
    then obtain r s p d sl where n: "n = x_name (Course r) (Instructor r) s p d sl"
      and r: "r \<in> set df" "s \<in> set (range1 (Sections r))" "p \<in> set parts" "d \<in> set days"
        "sl \<in> set time_slots"
      unfolding keys by blast
    from c cond [OF n r(1,2,4,5)] have "sl = slot"
      "\<not> is_jersey_city (get_type tm (Course r, Instructor r, s))" by auto
    moreover from dict(4) [OF nv] have "v = lookup vars n" by simp
    ultimately show "v \<in> ?R" using n r by blast
  next
    fix v assume "v \<in> ?R"
    then obtain r s p d where v: "v = lookup vars (x_name (Course r) (Instructor r) s p d slot)"
      and r: "r \<in> set df" "s \<in> set (range1 (Sections r))" "p \<in> set parts" "d \<in> set days"
        "slot \<in> set time_slots"
      and nj: "\<not> is_jersey_city (get_type tm (Course r, Instructor r, s))" by blast
    let ?n = "x_name (Course r) (Instructor r) s p d slot"
    from r have "?n \<in> set (map fst vars)" unfolding keys by blast
    then obtain w where nw: "(?n, w) \<in> set vars" by auto
    from dict(4) [OF nw] v have "w = v" by simp
    moreover from cond [OF refl r(1,2,4,5)] nj
    have "length (name_parts ?n) \<ge> 7 \<and> name_parts ?n ! 6 = slot \<and> \<not> is_jc_var tm ?n" by simp
    ultimately show "v \<in> ?L" using nw by (force simp: evening_vars_def)
  qed
qed

lemma evening_vars_distinct:
  assumes cv: "create_variables m0 df time_slots days = (m1, vars)"
  shows "distinct (evening_vars vars tm slot)"
  unfolding evening_vars_def
  using create_variables_dict(3) [OF cv] by (rule distinct_map_filter)

text \<open>
  Claim C5 (as amended). The evening cap is one cap per evening slot, and it relies on
  names without underscores: the code finds the slot of a variable by splitting its name
  at the underscores. When no course, instructor, day or slot contains an underscore,
  then for each of the two evening slots the set of assignment variables that the rule
  counts is the set of all variables at that slot, over all days, of the sections that
  are not Jersey City sections, each counted once; when that set is not empty the model
  holds the constraint \<^verbatim>\<open>balance_evening_<slot>\<close>, and in an accepted solution the number of
  active variables at that slot is at most \<open>(0.20 / 6) * total parts\<close>. Nothing bounds the
  two slots together.
\<close>

theorem C5_evening_cap_per_slot:
  assumes cv: "create_variables m0 df time_slots days = (m1, vars)"
    and wf: "names_wf df time_slots days"
    and slot: "slot \<in> set evening_slots"
  shows "distinct (evening_vars vars tm slot) \<and>
     set (evening_vars vars tm slot) =
       {lookup vars (x_name (Course r) (Instructor r) s p d slot) | r s p d.
          r \<in> set df \<and> s \<in> set (range1 (Sections r)) \<and> p \<in> set parts \<and> d \<in> set days
          \<and> slot \<in> set time_slots \<and> \<not> is_jersey_city (get_type tm (Course r, Instructor r, s))} \<and>
     (evening_vars vars tm slot \<noteq> [] \<longrightarrow>
        evening_constr df vars tm slot
          \<in> set (constrs (fst (add_balance_constraints m1 df vars pre tm))) \<and>
        (accepted (fst (add_balance_constraints m1 df vars pre tm)) sol \<longrightarrow>
           of_int (sum_list (map sol (evening_vars vars tm slot)))
             \<le> (evening_percentage / 6) * of_int (total_section_parts df)))"
proof -
  let ?M = "fst (add_balance_constraints m1 df vars pre tm)"
  have mem: "evening_constr df vars tm slot \<in> set (constrs ?M)"
    if "evening_vars vars tm slot \<noteq> []"
    using that slot by (auto simp: constrs_add_balance evening_constrs_def)
  have bound: "of_int (sum_list (map sol (evening_vars vars tm slot)))
             \<le> (evening_percentage / 6) * of_int (total_section_parts df)"
    if ne: "evening_vars vars tm slot \<noteq> []" and acc: "accepted ?M sol"
  proof -
    from acc mem [OF ne] have "sat sol (evening_constr df vars tm slot)"
      by (auto simp: accepted_def list_all_iff)
    then show ?thesis
      by (simp add: sat_def evening_constr_def eval_sum_vars eval_const_expr
          max_section_parts_evening_def)
  qed
  from evening_vars_distinct [OF cv] evening_vars_set [OF cv wf] mem bound
  show ?thesis by blast
qed

lemma sum_indicator_one:
  fixes a :: var
  assumes "distinct xs"
  shows "sum_list (map (\<lambda>v. if v = a then 1 else 0 :: int) xs) = (if a \<in> set xs then 1 else 0)"
  using assms by (induction xs) auto

lemma slot_percentages_checked:
  "list_all (\<lambda>e. fst e \<in> set banned_slots \<or> 20 / 100 \<le> snd e) slot_percentages"
  by code_simp

lemma slot_percentages_positive:
  assumes "((day, slot), pct) \<in> set slot_percentages" "(day, slot) \<notin> set banned_slots"
  shows "20 / 100 \<le> pct"
proof -
  from slot_percentages_checked assms(1)
  have "fst ((day, slot), pct) \<in> set banned_slots \<or> 20 / 100 \<le> snd ((day, slot), pct)"
    unfolding list_all_iff by (rule bspec)
  with assms(2) show ?thesis by simp
qed

lemma balance_constrs_cases:
  assumes "c \<in> set (balance_constrs df vars tm)"
  obtains day slot pct where "((day, slot), pct) \<in> set slot_percentages"
    "(day, slot) \<notin> set banned_slots"
    "c = \<lparr>c_lhs = sum_vars (balance_vars vars tm day slot), c_sense = LE,
          c_rhs = const_expr (of_int \<lceil>(pct / 6) * of_int (total_section_parts df)\<rceil>),
          c_name = ''balance_slot_'' @ day @ ''_'' @ slot\<rparr>"
proof -
  let ?f = "\<lambda>((day, slot), percentage).
       if (day, slot) \<in> set banned_slots then []
       else if balance_vars vars tm day slot \<noteq> []
       then [\<lparr>c_lhs = sum_vars (balance_vars vars tm day slot), c_sense = LE,
              c_rhs = const_expr
                (of_int \<lceil>(percentage / 6) * of_int (total_section_parts df)\<rceil>),
              c_name = ''balance_slot_'' @ day @ ''_'' @ slot\<rparr>]
       else []"
  from assms have "c \<in> (\<Union>e \<in> set slot_percentages. set (?f e))"
    unfolding balance_constrs_def set_concat set_map by simp
  then obtain e where e: "e \<in> set slot_percentages" and c: "c \<in> set (?f e)" by blast
  obtain day slot pct where eq: "e = ((day, slot), pct)" by (metis prod.collapse)
  from c have nb: "(day, slot) \<notin> set banned_slots"
    unfolding eq by (simp split: if_splits)
  from c nb have "c = \<lparr>c_lhs = sum_vars (balance_vars vars tm day slot), c_sense = LE,
          c_rhs = const_expr (of_int \<lceil>(pct / 6) * of_int (total_section_parts df)\<rceil>),
          c_name = ''balance_slot_'' @ day @ ''_'' @ slot\<rparr>"
    unfolding eq by (simp split: if_splits)
  with e nb that show thesis unfolding eq by blast
qed

lemma banned_constrs_cases:
  assumes "c \<in> set (banned_constrs vars)"
  obtains day slot where "(day, slot) \<in> set banned_slots"
    "c = \<lparr>c_lhs = sum_vars (slot_vars_at vars day slot), c_sense = EQ, c_rhs = const_expr 0,
          c_name = ''BANNED_SLOT_'' @ day @ ''_'' @ slot\<rparr>"
proof -
  let ?f = "\<lambda>(day, slot).
       if slot_vars_at vars day slot \<noteq> []
       then [\<lparr>c_lhs = sum_vars (slot_vars_at vars day slot), c_sense = EQ, c_rhs = const_expr 0,
              c_name = ''BANNED_SLOT_'' @ day @ ''_'' @ slot\<rparr>]
       else []"
  from assms have "c \<in> (\<Union>e \<in> set banned_slots. set (?f e))"
    unfolding banned_constrs_def set_concat set_map by simp
  then obtain e where e: "e \<in> set banned_slots" and c: "c \<in> set (?f e)" by blast
  obtain day slot where eq: "e = (day, slot)" by (cases e)
  from c have "c = \<lparr>c_lhs = sum_vars (slot_vars_at vars day slot), c_sense = EQ, c_rhs = const_expr 0,
          c_name = ''BANNED_SLOT_'' @ day @ ''_'' @ slot\<rparr>"
    unfolding eq by (simp split: if_splits)
  with e that show thesis unfolding eq by blast
qed

lemma evening_constrs_cases:
  assumes "c \<in> set (evening_constrs df vars tm)"
  obtains slot where "slot \<in> set evening_slots" "c = evening_constr df vars tm slot"
proof -
  let ?f = "\<lambda>slot. if evening_vars vars tm slot \<noteq> []
       then [evening_constr df vars tm slot] else []"
  from assms have "c \<in> (\<Union>e \<in> set evening_slots. set (?f e))"
    unfolding evening_constrs_def set_concat set_map by auto
  then obtain e where e: "e \<in> set evening_slots" and c: "c \<in> set (?f e)" by blast
  from c have "c = evening_constr df vars tm e" by (simp split: if_splits)
  with e that show thesis by blast
qed

lemma sat_sum_le_int:
  "sat sol \<lparr>c_lhs = sum_vars vs, c_sense = LE, c_rhs = const_expr (of_int k), c_name = n\<rparr>
     \<longleftrightarrow> sum_list (map sol vs) \<le> k"
  by (simp add: sat_def eval_sum_vars eval_const_expr)

text \<open>The instance of the witness: thirty parts, so the cap is 1; the solution that puts
  part 1 of section 1 at Monday 6:00 PM is accepted by the model of
  \<open>add_balance_constraints\<close>.\<close>

lemma w5_accepted:
  "accepted w5_model w5_sol \<and>
   lookup w5_vars (x_name ''CS100'' ''Smith'' 1 1 ''Monday'' ''6:00-7:30 PM'')
     \<in> set (evening_vars w5_vars [] ''6:00-7:30 PM'') \<and>
   sum_list (map w5_sol (evening_vars w5_vars [] ''6:00-7:30 PM'')) = 1"
proof -
  let ?s1 = "''6:00-7:30 PM''"
  let ?cv = "create_variables empty_model [c5_row] [?s1] [''Monday'']"
  let ?nA = "x_name ''CS100'' ''Smith'' 1 1 ''Monday'' ?s1"
  let ?A = "lookup w5_vars ?nA"
  have cv: "?cv = (fst ?cv, w5_vars)" by (simp add: w5_vars_def)
  have wf: "names_wf [c5_row] [?s1] [''Monday'']" by code_simp
  have nj: "\<not> is_jersey_city (get_type [] k)" for k by (simp add: get_type_def) code_simp
  have c5: "Course c5_row = ''CS100''" "Instructor c5_row = ''Smith''" "Sections c5_row = 15"
    by (simp_all add: c5_row_def)
  note dict = create_variables_dict [OF cv]
  have sol: "w5_sol = (\<lambda>v. if v = ?A then 1 else 0)"
    by (rule ext) (simp add: w5_sol_def)
  have le1: "sum_list (map w5_sol xs) \<le> 1" if "distinct xs" for xs
    unfolding sol by (simp add: sum_indicator_one [OF that])
  have A_in: "?A \<in> set (evening_vars w5_vars [] ?s1)"
  proof -
    have "1 \<in> set (range1 15)" "1 \<in> set parts" by (simp_all add: range1_def parts_def)
    then have "\<exists>r s p d. ?A = lookup w5_vars (x_name (Course r) (Instructor r) s p d ?s1) \<and>
        r \<in> set [c5_row] \<and> s \<in> set (range1 (Sections r)) \<and> p \<in> set parts \<and> d \<in> set [''Monday'']
        \<and> ?s1 \<in> set [?s1] \<and> \<not> is_jersey_city (get_type [] (Course r, Instructor r, s))"
      using nj
      by (intro exI [of _ c5_row] exI [of _ 1] exI [of _ "''Monday''"]) (simp add: c5)
    then show ?thesis
      unfolding evening_vars_set [OF cv wf, of "[]" ?s1] by simp
  qed
  have sum1: "sum_list (map w5_sol (evening_vars w5_vars [] ?s1)) = 1"
    unfolding sol using A_in by (simp add: sum_indicator_one [OF evening_vars_distinct [OF cv]])
  have keyA: "?nA \<in> set (map fst w5_vars)"
  proof -
    have "1 \<in> set (range1 15)" "1 \<in> set parts" by (simp_all add: range1_def parts_def)
    then have "\<exists>s p d sl. ?nA = x_name ''CS100'' ''Smith'' s p d sl \<and>
        s \<in> set (range1 15) \<and> p \<in> set parts \<and> d \<in> set [''Monday''] \<and> sl \<in> set [?s1]"
      by (intro exI [of _ 1] exI [of _ "''Monday''"] exI [of _ ?s1]) simp
    then show ?thesis
      unfolding dict(2) by (simp add: row_var_names_set c5)
  qed
  then obtain w where nw: "(?nA, w) \<in> set w5_vars" by auto
  from dict(4) [OF nw] have wA: "w = ?A" by simp
  have partsA: "name_parts ?nA = [''X'', ''CS100'', ''Smith'', str_int 1, str_int 1, ''Monday'', ?s1]"
    by (rule name_parts_x_name) simp_all
  have not_at: "?A \<notin> set (slot_vars_at w5_vars day slot)" if "day \<noteq> ''Monday''" for day slot
  proof
    assume "?A \<in> set (slot_vars_at w5_vars day slot)"
    then obtain n where n: "(n, ?A) \<in> set w5_vars" and d: "name_parts n ! 5 = day"
      by (auto simp: slot_vars_at_def)
    have "inj_on snd (set w5_vars)" using dict(3) by (simp add: distinct_map)
    from inj_onD [OF this, of "(n, ?A)" "(?nA, ?A)"] n nw wA have "n = ?nA" by simp
    with d partsA that show False by simp
  qed
  have m0: "constrs (fst ?cv) = []"
    using create_variables_ok [OF cv] by (simp add: empty_model_def)
  have cs: "set (constrs w5_model) =
      set (banned_constrs w5_vars) \<union> set (balance_constrs [c5_row] w5_vars [])
        \<union> set (evening_constrs [c5_row] w5_vars [])"
    by (simp add: w5_model_def constrs_add_balance m0 block_constrs_def Un_assoc)
  have total: "total_section_parts [c5_row] = 30"
    by (simp add: total_section_parts_def c5)
  have sat_all: "sat w5_sol c" if c: "c \<in> set (constrs w5_model)" for c
  proof -
    from c cs consider "c \<in> set (banned_constrs w5_vars)"
      | "c \<in> set (balance_constrs [c5_row] w5_vars [])"
      | "c \<in> set (evening_constrs [c5_row] w5_vars [])" by auto
    then show ?thesis
    proof cases
      case 1
      then obtain day slot where b: "(day, slot) \<in> set banned_slots"
        and ceq: "c = \<lparr>c_lhs = sum_vars (slot_vars_at w5_vars day slot), c_sense = EQ,
              c_rhs = const_expr 0, c_name = ''BANNED_SLOT_'' @ day @ ''_'' @ slot\<rparr>"
        by (rule banned_constrs_cases)
      from b have "day \<noteq> ''Monday''" by (auto simp: banned_slots_def)
      from not_at [OF this] have "?A \<notin> set (slot_vars_at w5_vars day slot)" .
      moreover have "distinct (slot_vars_at w5_vars day slot)"
        unfolding slot_vars_at_def using dict(3) by (rule distinct_map_filter)
      ultimately have "sum_list (map w5_sol (slot_vars_at w5_vars day slot)) = 0"
        unfolding sol by (simp add: sum_indicator_one)
      then show ?thesis
        by (simp add: ceq sat_def eval_sum_vars eval_const_expr)
    next
      case 2
      then obtain day slot pct where p: "((day, slot), pct) \<in> set slot_percentages"
        and nb: "(day, slot) \<notin> set banned_slots"
        and ceq: "c = \<lparr>c_lhs = sum_vars (balance_vars w5_vars [] day slot), c_sense = LE,
          c_rhs = const_expr (of_int \<lceil>(pct / 6) * of_int (total_section_parts [c5_row])\<rceil>),
          c_name = ''balance_slot_'' @ day @ ''_'' @ slot\<rparr>"
        by (rule balance_constrs_cases)
      have "distinct (balance_vars w5_vars [] day slot)"
        unfolding balance_vars_def using dict(3) by (rule distinct_map_filter)
      then have l: "sum_list (map w5_sol (balance_vars w5_vars [] day slot)) \<le> 1" by (rule le1)
      from slot_percentages_positive [OF p nb] have pos: "1 / 5 \<le> pct" by simp
      have "(1 :: rat) \<le> (pct / 6) * of_int (total_section_parts [c5_row])"
        using pos unfolding total by simp
      then have "\<lceil>1 :: rat\<rceil> \<le> \<lceil>(pct / 6) * of_int (total_section_parts [c5_row])\<rceil>"
        by (rule ceiling_mono)
      then have one: "1 \<le> \<lceil>(pct / 6) * of_int (total_section_parts [c5_row])\<rceil>"
        by (simp only: ceiling_one)
      from l one have "sum_list (map w5_sol (balance_vars w5_vars [] day slot))
          \<le> \<lceil>(pct / 6) * of_int (total_section_parts [c5_row])\<rceil>"
        by (rule order_trans)
      then show ?thesis
        unfolding ceq sat_sum_le_int .
    next
      case 3
      then obtain slot where "slot \<in> set evening_slots"
        and ceq: "c = evening_constr [c5_row] w5_vars [] slot"
        by (rule evening_constrs_cases)
      have l: "sum_list (map w5_sol (evening_vars w5_vars [] slot)) \<le> 1"
        by (rule le1) (rule evening_vars_distinct [OF cv])
      have cap: "max_section_parts_evening [c5_row] = 1"
        by (simp add: max_section_parts_evening_def evening_percentage_def total)
      from l show ?thesis
        by (simp add: ceq sat_def evening_constr_def eval_sum_vars eval_const_expr cap)
    qed
  qed
  have bin: "binary w5_sol v" for v by (simp add: binary_def w5_sol_def)
  have "accepted w5_model w5_sol"
    using sat_all bin by (simp add: accepted_def list_all_iff)
  with A_in sum1 show ?thesis by simp
qed

theorem C5_evening_cap_per_slot_witness:
  "names_wf [c5_row] [''6:00-7:30 PM''] [''Monday''] \<and>
   ''6:00-7:30 PM'' \<in> set evening_slots \<and>
   accepted w5_model w5_sol \<and>
   distinct (evening_vars w5_vars [] ''6:00-7:30 PM'') \<and>
   lookup w5_vars (x_name ''CS100'' ''Smith'' 1 1 ''Monday'' ''6:00-7:30 PM'')
     \<in> set (evening_vars w5_vars [] ''6:00-7:30 PM'') \<and>
   w5_sol (lookup w5_vars (x_name ''CS100'' ''Smith'' 1 1 ''Monday'' ''6:00-7:30 PM'')) = 1 \<and>
   evening_constr [c5_row] w5_vars [] ''6:00-7:30 PM'' \<in> set (constrs w5_model) \<and>
   (of_int (sum_list (map w5_sol (evening_vars w5_vars [] ''6:00-7:30 PM''))) :: rat)
     \<le> (evening_percentage / 6) * of_int (total_section_parts [c5_row])"
proof -
  let ?cv = "create_variables empty_model [c5_row] [''6:00-7:30 PM''] [''Monday'']"
  have cv: "?cv = (fst ?cv, w5_vars)" by (simp add: w5_vars_def)
  have wf: "names_wf [c5_row] [''6:00-7:30 PM''] [''Monday'']" by code_simp
  have slot: "''6:00-7:30 PM'' \<in> set evening_slots" by code_simp
  from w5_accepted have acc: "accepted w5_model w5_sol"
    and A: "lookup w5_vars (x_name ''CS100'' ''Smith'' 1 1 ''Monday'' ''6:00-7:30 PM'')
              \<in> set (evening_vars w5_vars [] ''6:00-7:30 PM'')" by simp_all
  from A have ne: "evening_vars w5_vars [] ''6:00-7:30 PM'' \<noteq> []" by auto
  from C5_evening_cap_per_slot [OF cv wf slot, of "[]" "[]" w5_sol] acc ne A wf slot
  show ?thesis by (simp add: w5_model_def w5_sol_def)
qed

lemma sum_indicator_two:
  fixes a b :: var
  assumes "distinct xs" "a \<in> set xs" "b \<notin> set xs"
  shows "sum_list (map (\<lambda>v. if v = a \<or> v = b then 1 else 0 :: int) xs) = 1"
  using assms
proof (induction xs)
  case Nil
  then show ?case by simp
next
  case (Cons x xs)
  show ?case
  proof (cases "x = a")
    case True
    with Cons.prems have "\<forall>v \<in> set xs. v \<noteq> a \<and> v \<noteq> b" by auto
    then have "sum_list (map (\<lambda>v. if v = a \<or> v = b then 1 else 0 :: int) xs) = 0"
      by (induction xs) auto
    with True show ?thesis by simp
  next
    case False
    with Cons show ?thesis by auto
  qed
qed

text \<open>
  The claim as stated fails. With thirty parts the cap is 1. The evening rule adds two
  constraints, one per slot; the assignment that puts one part at 6:00 PM and one at
  7:30 PM satisfies both, and its evening usage over the two slots together is 2. And for
  an instructor whose name contains an underscore (\<^verbatim>\<open>Smith_Jr\<close>) the seventh piece of a
  variable's name is not its slot, so the rule finds no variable at either evening slot
  and adds no constraint at all, although the four evening variables exist.
\<close>

theorem C5_combined_cap_counterexample:
  "evening_constrs [c5_row] c5_vars [] =
     [evening_constr [c5_row] c5_vars [] ''6:00-7:30 PM'',
      evening_constr [c5_row] c5_vars [] ''7:30-9:00 PM''] \<and>
   list_all (sat c5_sol) (evening_constrs [c5_row] c5_vars []) \<and>
   (evening_percentage / 6) * of_int (total_section_parts [c5_row]) = 1 \<and>
   (of_int (sum_list (map c5_sol (evening_vars c5_vars [] ''6:00-7:30 PM''
                                   @ evening_vars c5_vars [] ''7:30-9:00 PM''))) :: rat) = 2 \<and>
   length u5_vars = 4 \<and> evening_constrs [u5_row] u5_vars [] = []"
proof -
  have u5: "length u5_vars = 4 \<and> evening_constrs [u5_row] u5_vars [] = []" by code_simp
  let ?cv = "create_variables empty_model [c5_row] evening_slots [''Monday'']"
  let ?s1 = "''6:00-7:30 PM''" and ?s2 = "''7:30-9:00 PM''"
  let ?nA = "x_name ''CS100'' ''Smith'' 1 1 ''Monday'' ?s1"
  let ?nB = "x_name ''CS100'' ''Smith'' 1 2 ''Monday'' ?s2"
  have cv: "?cv = (fst ?cv, c5_vars)" by (simp add: c5_vars_def)
  have wf: "names_wf [c5_row] evening_slots [''Monday'']" by code_simp
  have nj: "\<not> is_jersey_city (get_type [] k)" for k by (simp add: get_type_def) code_simp
  have c5: "Course c5_row = ''CS100''" "Instructor c5_row = ''Smith''" "Sections c5_row = 15"
    by (simp_all add: c5_row_def)
  have s1: "?s1 \<in> set evening_slots" and s2: "?s2 \<in> set evening_slots" by code_simp+
  have es: "set (evening_vars c5_vars [] slot) =
      {lookup c5_vars (x_name ''CS100'' ''Smith'' s p ''Monday'' slot) | s p.
         s \<in> set (range1 15) \<and> p \<in> set parts \<and> slot \<in> set evening_slots}" for slot
    unfolding evening_vars_set [OF cv wf, of "[]" slot] using nj by (auto simp: c5)
  have rng: "1 \<in> set (range1 15)" by (simp add: range1_def)
  have p: "1 \<in> set parts" "2 \<in> set parts" by (simp_all add: parts_def)
  have A1: "lookup c5_vars ?nA \<in> set (evening_vars c5_vars [] ?s1)"
    unfolding es using rng p s1 by auto
  have B2: "lookup c5_vars ?nB \<in> set (evening_vars c5_vars [] ?s2)"
    unfolding es using rng p s2 by auto
  note dict = create_variables_dict [OF cv]
  have keyA: "?nA \<in> set (map fst c5_vars)"
    unfolding dict(2) using rng p s1 by (simp add: row_var_names_set c5) blast
  have keyB: "?nB \<in> set (map fst c5_vars)"
    unfolding dict(2) using rng p s2 by (simp add: row_var_names_set c5) blast
  have lk_inj: "n = n'" if "n \<in> set (map fst c5_vars)" "n' \<in> set (map fst c5_vars)"
    "lookup c5_vars n = lookup c5_vars n'" for n n'
  proof -
    from that obtain v v' where "(n, v) \<in> set c5_vars" "(n', v') \<in> set c5_vars" by auto
    with dict(1) have "map_of c5_vars n = Some v" "map_of c5_vars n' = Some v'" by simp_all
    with that(3) create_variables_ok [OF cv] show ?thesis
      by (auto simp: lookup_def vars_ok_def)
  qed
  have r: "c5_row \<in> set [c5_row]" "''Monday'' \<in> set [''Monday'']" by simp_all
  have B1: "lookup c5_vars ?nB \<notin> set (evening_vars c5_vars [] ?s1)"
  proof
    assume "lookup c5_vars ?nB \<in> set (evening_vars c5_vars [] ?s1)"
    then obtain s p where e: "lookup c5_vars ?nB = lookup c5_vars (x_name ''CS100'' ''Smith'' s p ''Monday'' ?s1)"
      and sp: "s \<in> set (range1 15)" "p \<in> set parts" unfolding es by auto
    from sp s1 have "x_name ''CS100'' ''Smith'' s p ''Monday'' ?s1 \<in> set (map fst c5_vars)"
      unfolding dict(2) by (simp add: row_var_names_set c5) blast
    from lk_inj [OF keyB this e]
    have "x_name (Course c5_row) (Instructor c5_row) 1 2 ''Monday'' ?s2 =
          x_name (Course c5_row) (Instructor c5_row) s p ''Monday'' ?s1" by (simp add: c5)
    from x_name_inj_wf [OF wf r(1) r(2) s2 r(1) r(2) s1 this] show False by simp
  qed
  have A2: "lookup c5_vars ?nA \<notin> set (evening_vars c5_vars [] ?s2)"
  proof
    assume "lookup c5_vars ?nA \<in> set (evening_vars c5_vars [] ?s2)"
    then obtain s p where e: "lookup c5_vars ?nA = lookup c5_vars (x_name ''CS100'' ''Smith'' s p ''Monday'' ?s2)"
      and sp: "s \<in> set (range1 15)" "p \<in> set parts" unfolding es by auto
    from sp s2 have "x_name ''CS100'' ''Smith'' s p ''Monday'' ?s2 \<in> set (map fst c5_vars)"
      unfolding dict(2) by (simp add: row_var_names_set c5) blast
    from lk_inj [OF keyA this e]
    have "x_name (Course c5_row) (Instructor c5_row) 1 1 ''Monday'' ?s1 =
          x_name (Course c5_row) (Instructor c5_row) s p ''Monday'' ?s2" by (simp add: c5)
    from x_name_inj_wf [OF wf r(1) r(2) s1 r(1) r(2) s2 this] show False by simp
  qed
  have sol: "c5_sol = (\<lambda>v. if v = lookup c5_vars ?nA \<or> v = lookup c5_vars ?nB then 1 else 0)"
    by (rule ext) (simp add: c5_sol_def)
  have sum1: "sum_list (map c5_sol (evening_vars c5_vars [] ?s1)) = 1"
    unfolding sol by (rule sum_indicator_two [OF evening_vars_distinct [OF cv] A1 B1])
  have sol': "c5_sol = (\<lambda>v. if v = lookup c5_vars ?nB \<or> v = lookup c5_vars ?nA then 1 else 0)"
    by (rule ext) (auto simp: c5_sol_def)
  have sum2: "sum_list (map c5_sol (evening_vars c5_vars [] ?s2)) = 1"
    unfolding sol' by (rule sum_indicator_two [OF evening_vars_distinct [OF cv] B2 A2])
  have cap: "(evening_percentage / 6) * of_int (total_section_parts [c5_row]) = 1"
    by (simp add: evening_percentage_def total_section_parts_def c5)
  from A1 B2 have ne: "evening_vars c5_vars [] ?s1 \<noteq> []" "evening_vars c5_vars [] ?s2 \<noteq> []"
    by auto
  then have ecs: "evening_constrs [c5_row] c5_vars [] =
     [evening_constr [c5_row] c5_vars [] ?s1, evening_constr [c5_row] c5_vars [] ?s2]"
    by (simp add: evening_constrs_def evening_slots_def)
  have sat12: "list_all (sat c5_sol) (evening_constrs [c5_row] c5_vars [])"
    unfolding ecs
    unfolding sat_def evening_constr_def max_section_parts_evening_def cap
    by (simp add: eval_sum_vars eval_const_expr sum1 sum2)
  from ecs sat12 cap sum1 sum2 u5 show ?thesis by simp
qed

end
